theory Spec2Isabelle
  imports Complex_Main "HOL-Library.AList"
begin

section \<open>Host environment: numbers, dates and the counting store\<close>

text \<open>
  Times are the integer millisecond counts that \<^verbatim>\<open>Date.now()\<close> returns. One call of the
  limiter reads the clock several times; the model gives each call a single reading.
\<close>

type_synonym millis = nat

definition digit_char :: "nat \<Rightarrow> char" where
  "digit_char d = ''0123456789'' ! d"

text \<open>\<^verbatim>\<open>String(n)\<close> for a non-negative integer below 1e21: its decimal digits.\<close>

fun decimal :: "nat \<Rightarrow> string" where
  "decimal n = (if n < 10 then [digit_char n] else decimal (n div 10) @ [digit_char (n mod 10)])"

declare decimal.simps [simp del]

definition pad_zero :: "nat \<Rightarrow> nat \<Rightarrow> string" where
  "pad_zero w n = replicate (w - length (decimal n)) (CHR ''0'') @ decimal n"

text \<open>
  The proleptic Gregorian date (year, month, day) of a day number counted from
  1970-01-01, as \<^verbatim>\<open>Date\<close> computes it in UTC.
\<close>

definition civil_from_days :: "nat \<Rightarrow> nat \<times> nat \<times> nat" where
  "civil_from_days days =
     (let z = days + 719468;
          era = z div 146097;
          doe = z mod 146097;
          yoe = (doe - doe div 1460 + doe div 36524 - doe div 146096) div 365;
          doy = doe - (365 * yoe + yoe div 4 - yoe div 100);
          mp = (5 * doy + 2) div 153;
          d = doy - (153 * mp + 2) div 5 + 1;
          m = (if mp < 10 then mp + 3 else mp - 9);
          y = yoe + era * 400 + (if m \<le> 2 then 1 else 0)
      in (y, m, d))"

text \<open>
  \<^verbatim>\<open>new Date(ms).toISOString()\<close>: \<^verbatim>\<open>YYYY-MM-DDTHH:mm:ss.sssZ\<close>, with the expanded
  six-digit year \<^verbatim>\<open>+YYYYYY\<close> after year 9999.
\<close>

definition toISOString :: "millis \<Rightarrow> string" where
  "toISOString ms =
     (case civil_from_days (ms div 86400000) of (y, m, d) \<Rightarrow>
        (if y \<le> 9999 then pad_zero 4 y else ''+'' @ pad_zero 6 y)
        @ ''-'' @ pad_zero 2 m @ ''-'' @ pad_zero 2 d
        @ ''T'' @ pad_zero 2 (ms div 3600000 mod 24)
        @ '':'' @ pad_zero 2 (ms div 60000 mod 60)
        @ '':'' @ pad_zero 2 (ms div 1000 mod 60)
        @ ''.'' @ pad_zero 3 (ms mod 1000) @ ''Z'')"

text \<open>\<^verbatim>\<open>new Date().toISOString().slice(0,10)\<close>\<close>

definition isoDate :: "millis \<Rightarrow> string" where
  "isoDate ms = take 10 (toISOString ms)"

text \<open>
  The counting store (Redis, reached through the client library): a key holds a counter
  and, optionally, the time at which it expires. \<^verbatim>\<open>INCR\<close> creates a missing or expired
  key at 1 without expiry and keeps the expiry of a live key; \<^verbatim>\<open>EXPIRE\<close> sets the expiry
  of a live key to the given number of seconds from now. The store's clock is taken to
  be the server's.
\<close>

type_synonym redis_db = "string \<rightharpoonup> nat \<times> millis option"

definition redis_live :: "millis \<Rightarrow> redis_db \<Rightarrow> string \<Rightarrow> (nat \<times> millis option) option" where
  "redis_live now db k =
     (case db k of
        None \<Rightarrow> None
      | Some (v, None) \<Rightarrow> Some (v, None)
      | Some (v, Some t) \<Rightarrow> if now < t then Some (v, Some t) else None)"

definition redis_incr :: "millis \<Rightarrow> string \<Rightarrow> redis_db \<Rightarrow> nat \<times> redis_db" where
  "redis_incr now k db =
     (case redis_live now db k of
        None \<Rightarrow> (1, db(k \<mapsto> (1, None)))
      | Some (v, e) \<Rightarrow> (v + 1, db(k \<mapsto> (v + 1, e))))"

definition redis_expire :: "millis \<Rightarrow> string \<Rightarrow> nat \<Rightarrow> redis_db \<Rightarrow> redis_db" where
  "redis_expire now k secs db =
     (case redis_live now db k of
        None \<Rightarrow> db
      | Some (v, e) \<Rightarrow> db(k \<mapsto> (v, Some (now + 1000 * secs))))"

section \<open>The Express server's limiter (server/index.js)\<close>

text \<open>
  \<^verbatim>\<open>MAX_REQUESTS_PER_MIN\<close> and \<^verbatim>\<open>MAX_DAILY_REQUESTS\<close> are read from the environment at
  start-up (defaults 60 and 10000).
\<close>

record config =
  MAX_REQUESTS_PER_MIN :: int
  MAX_DAILY_REQUESTS :: int


datatype reason = minute_limit | daily_limit

text \<open>\<^verbatim>\<open>{ ok: true }\<close> is \<open>Admit\<close>; \<^verbatim>\<open>{ ok: false, reason: r }\<close> is \<open>Reject r\<close>.\<close>

datatype decision = Admit | Reject reason

record entry =
  minute :: nat
  count :: nat
  day :: string
  dayCount :: nat

type_synonym ip_map = "string \<rightharpoonup> entry"

definition minuteKey :: "string \<Rightarrow> millis \<Rightarrow> string" where
  "minuteKey clientId ms = ''rl:'' @ clientId @ '':'' @ decimal (ms div 1000 div 60)"

definition dayKey :: "string \<Rightarrow> millis \<Rightarrow> string" where
  "dayKey clientId ms = ''daily:'' @ clientId @ '':'' @ isoDate ms"

text \<open>The branch taken when \<^verbatim>\<open>redis\<close> is set.\<close>

definition checkRateLimit_redis ::
  "config \<Rightarrow> string \<Rightarrow> millis \<Rightarrow> redis_db \<Rightarrow> decision \<times> redis_db" where
  "checkRateLimit_redis cfg clientId ms db =
     (case redis_incr ms (minuteKey clientId ms) db of (minute_n, db1) \<Rightarrow>
        let db2 = (if minute_n = 1 then redis_expire ms (minuteKey clientId ms) 65 db1 else db1)
        in if int minute_n > MAX_REQUESTS_PER_MIN cfg then (Reject minute_limit, db2)
           else
             (case redis_incr ms (dayKey clientId ms) db2 of (daily_n, db3) \<Rightarrow>
                let db4 = (if daily_n = 1
                           then redis_expire ms (dayKey clientId ms) (86400 + 60) db3 else db3)
                in if int daily_n > MAX_DAILY_REQUESTS cfg then (Reject daily_limit, db4)
                   else (Admit, db4)))"

text \<open>The in-memory branch.\<close>

definition checkRateLimit_mem ::
  "config \<Rightarrow> string \<Rightarrow> millis \<Rightarrow> ip_map \<Rightarrow> decision \<times> ip_map" where
  "checkRateLimit_mem cfg clientId ms ipMap =
     (let nowMin = ms div 60000;
          entry0 = (case ipMap clientId of
                      Some e \<Rightarrow> e
                    | None \<Rightarrow> \<lparr>minute = nowMin, count = 0, day = isoDate ms, dayCount = 0\<rparr>);
          entry1 = (if minute entry0 \<noteq> nowMin then entry0\<lparr>minute := nowMin, count := 0\<rparr>
                    else entry0);
          entry2 = entry1\<lparr>count := count entry1 + 1, dayCount := dayCount entry1 + 1\<rparr>;
          ipMap' = ipMap(clientId \<mapsto> entry2)
      in if int (count entry2) > MAX_REQUESTS_PER_MIN cfg then (Reject minute_limit, ipMap')
         else if int (dayCount entry2) > MAX_DAILY_REQUESTS cfg then (Reject daily_limit, ipMap')
         else (Admit, ipMap'))"

text \<open>
  The limiter's state: \<^verbatim>\<open>redis\<close> is \<open>None\<close> when \<^verbatim>\<open>REDIS_URL\<close> is not set, and
  otherwise the contents of the store; \<^verbatim>\<open>ipMap\<close> is the in-process table.
\<close>

record limiter_state =
  redis :: "redis_db option"
  ipMap :: ip_map

definition checkRateLimit ::
  "config \<Rightarrow> string \<Rightarrow> millis \<Rightarrow> limiter_state \<Rightarrow> decision \<times> limiter_state" where
  "checkRateLimit cfg clientId ms st =
     (case redis st of
        Some db \<Rightarrow>
          (case checkRateLimit_redis cfg clientId ms db of
             (d, db') \<Rightarrow> (d, st\<lparr>redis := Some db'\<rparr>))
      | None \<Rightarrow>
          (case checkRateLimit_mem cfg clientId ms (ipMap st) of
             (d, m') \<Rightarrow> (d, st\<lparr>ipMap := m'\<rparr>)))"

text \<open>A sequence of calls, each a client identifier with the clock reading of the call.\<close>

fun decisions :: "config \<Rightarrow> limiter_state \<Rightarrow> (string \<times> millis) list \<Rightarrow> decision list" where
  "decisions cfg st [] = []"
| "decisions cfg st ((c, t) # cs) =
     fst (checkRateLimit cfg c t st) # decisions cfg (snd (checkRateLimit cfg c t st)) cs"

fun final_state :: "config \<Rightarrow> limiter_state \<Rightarrow> (string \<times> millis) list \<Rightarrow> limiter_state" where
  "final_state cfg st [] = st"
| "final_state cfg st ((c, t) # cs) = final_state cfg (snd (checkRateLimit cfg c t st)) cs"

definition redis_start :: limiter_state where
  "redis_start = \<lparr>redis = Some Map.empty, ipMap = Map.empty\<rparr>"

definition mem_start :: limiter_state where
  "mem_start = \<lparr>redis = None, ipMap = Map.empty\<rparr>"

text \<open>
  What the limiter holds for a client when the clock reads \<open>t\<close>: the count of the
  client's per-minute window at \<open>t\<close> (0 when there is none: in the store no key or an
  expired one, in the table no entry or the entry of another minute, which the next call
  resets), and the per-day counter.
\<close>

definition redis_count :: "millis \<Rightarrow> redis_db \<Rightarrow> string \<Rightarrow> nat" where
  "redis_count now db k = (case redis_live now db k of None \<Rightarrow> 0 | Some (v, e) \<Rightarrow> v)"

definition window_count :: "limiter_state \<Rightarrow> string \<Rightarrow> millis \<Rightarrow> nat" where
  "window_count st c t =
     (case redis st of
        Some db \<Rightarrow> redis_count t db (minuteKey c t)
      | None \<Rightarrow>
          (case ipMap st c of
             None \<Rightarrow> 0
           | Some e \<Rightarrow> if minute e = t div 60000 then count e else 0))"

definition daily_counter :: "limiter_state \<Rightarrow> string \<Rightarrow> millis \<Rightarrow> nat" where
  "daily_counter st c t =
     (case redis st of
        Some db \<Rightarrow> redis_count t db (dayKey c t)
      | None \<Rightarrow> (case ipMap st c of None \<Rightarrow> 0 | Some e \<Rightarrow> dayCount e))"

section \<open>The serverless function's limiter (api/proxy.js)\<close>

text \<open>
  \<^verbatim>\<open>ipCounters\<close> maps an address to \<^verbatim>\<open>{ count, start }\<close>; the fields carry a suffix
  here because \<open>count\<close> is already a field of \<open>entry\<close>.
\<close>

record ip_counter =
  count_sl :: nat
  start_sl :: millis

type_synonym ip_counters = "string \<rightharpoonup> ip_counter"

definition RATE_LIMIT_WINDOW_MS :: int where
  "RATE_LIMIT_WINDOW_MS = 60 * 1000"

definition MAX_REQUESTS_PER_WINDOW :: nat where
  "MAX_REQUESTS_PER_WINDOW = 60"

text \<open>
  Lines 25 to 35 of the handler: the result is \<open>True\<close> when the request may go on and
  \<open>False\<close> when the handler answers 429.
\<close>

definition rate_limit_sl :: "string \<Rightarrow> millis \<Rightarrow> ip_counters \<Rightarrow> bool \<times> ip_counters" where
  "rate_limit_sl ip now ipCounters =
     (let entry0 = (case ipCounters ip of
                      Some e \<Rightarrow> e
                    | None \<Rightarrow> \<lparr>count_sl = 0, start_sl = now\<rparr>);
          entry1 = (if int now - int (start_sl entry0) > RATE_LIMIT_WINDOW_MS
                    then \<lparr>count_sl = 0, start_sl = now\<rparr> else entry0);
          entry2 = entry1\<lparr>count_sl := count_sl entry1 + 1\<rparr>;
          ipCounters' = ipCounters(ip \<mapsto> entry2)
      in (\<not> count_sl entry2 > MAX_REQUESTS_PER_WINDOW, ipCounters'))"


fun final_sl :: "ip_counters \<Rightarrow> (string \<times> millis) list \<Rightarrow> ip_counters" where
  "final_sl m [] = m"
| "final_sl m ((c, t) # cs) = final_sl (snd (rate_limit_sl c t m)) cs"


text \<open>
  Whether a request of the client at time \<open>t\<close> would continue a window that the table
  holds, rather than open one.
\<close>

definition window_open_sl :: "ip_counters \<Rightarrow> string \<Rightarrow> millis \<Rightarrow> bool" where
  "window_open_sl m c t =
     (case m c of
        None \<Rightarrow> False
      | Some e \<Rightarrow> \<not> int t - int (start_sl e) > RATE_LIMIT_WINDOW_MS)"

section \<open>Host environment: JSON values, property reads and JSON.parse\<close>

text \<open>
  The values a handler sees: what \<^verbatim>\<open>JSON.parse\<close> can return, and \<^verbatim>\<open>undefined\<close>. A number
  \<open>Num m k\<close> is the decimal \<open>m / 10^k\<close>, with \<open>k = 0\<close> or the last digit of \<open>m\<close> not
  zero; the rounding of a literal to a double (and with it overflow to infinity and
  underflow to zero) is not modelled. A string is its UTF-8 bytes. An object is the list
  of its own properties, each key once.
\<close>

datatype jsval =
    Undefined
  | Null
  | Bool bool
  | Num int nat
  | Str string
  | Arr "jsval list"
  | Obj "(string \<times> jsval) list"

definition dquote :: char where
  "dquote = CHR 0x22"

definition backslash :: char where
  "backslash = CHR 0x5C"

definition quoted :: "string \<Rightarrow> string" where
  "quoted s = dquote # s @ [dquote]"

definition is_ws :: "char \<Rightarrow> bool" where
  "is_ws c = (c = CHR '' '' \<or> c = CHR 0x09 \<or> c = CHR 0x0A \<or> c = CHR 0x0D)"

definition is_digit :: "char \<Rightarrow> bool" where
  "is_digit c = (48 \<le> (of_char c :: nat) \<and> (of_char c :: nat) \<le> 57)"

definition digit_value :: "char \<Rightarrow> nat" where
  "digit_value c = of_char c - 48"

definition skip_ws :: "string \<Rightarrow> string" where
  "skip_ws s = dropWhile is_ws s"

definition digits_value :: "string \<Rightarrow> nat" where
  "digits_value ds = foldl (\<lambda>a c. 10 * a + digit_value c) 0 ds"

fun strip_zeros :: "int \<Rightarrow> nat \<Rightarrow> int \<times> nat" where
  "strip_zeros m 0 = (m, 0)"
| "strip_zeros m (Suc k) = (if m mod 10 = 0 then strip_zeros (m div 10) k else (m, Suc k))"

text \<open>The number written with sign, integer digits, fraction digits and exponent.\<close>

definition make_number :: "bool \<Rightarrow> string \<Rightarrow> string \<Rightarrow> int \<Rightarrow> jsval" where
  "make_number neg ip fp ex =
     (let mant = int (digits_value (ip @ fp));
          sm = (if neg then - mant else mant);
          sc = int (length fp) - ex
      in if sc \<le> 0 then Num (sm * 10 ^ nat (- sc)) 0
         else (case strip_zeros sm (nat sc) of (m, k) \<Rightarrow> Num m k))"

definition parse_fraction :: "string \<Rightarrow> (string \<times> string) option" where
  "parse_fraction s =
     (case s of
        [] \<Rightarrow> Some ([], s)
      | c # r \<Rightarrow>
          if c = CHR ''.''
          then (if takeWhile is_digit r = [] then None
                else Some (takeWhile is_digit r, dropWhile is_digit r))
          else Some ([], s))"

definition parse_exponent :: "string \<Rightarrow> (int \<times> string) option" where
  "parse_exponent s =
     (case s of
        [] \<Rightarrow> Some (0, s)
      | c # r \<Rightarrow>
          if c = CHR ''e'' \<or> c = CHR ''E''
          then (let neg = (take 1 r = ''-'');
                    r1 = (if take 1 r = ''-'' \<or> take 1 r = ''+'' then drop 1 r else r);
                    ds = takeWhile is_digit r1
                in if ds = [] then None
                   else Some (if neg then - int (digits_value ds) else int (digits_value ds),
                              dropWhile is_digit r1))
          else Some (0, s))"

definition parse_number :: "string \<Rightarrow> (jsval \<times> string) option" where
  "parse_number s =
     (let neg = (take 1 s = ''-'');
          s1 = (if neg then drop 1 s else s);
          ip = (if take 1 s1 = ''0'' then ''0'' else takeWhile is_digit s1);
          s2 = drop (length ip) s1
      in if ip = [] then None
         else (case parse_fraction s2 of
                 None \<Rightarrow> None
               | Some (fp, s3) \<Rightarrow>
                   (case parse_exponent s3 of
                      None \<Rightarrow> None
                    | Some (ex, s4) \<Rightarrow> Some (make_number neg ip fp ex, s4))))"

definition hex_value :: "char \<Rightarrow> nat option" where
  "hex_value c =
     (let n = (of_char c :: nat)
      in if 48 \<le> n \<and> n \<le> 57 then Some (n - 48)
         else if 97 \<le> n \<and> n \<le> 102 then Some (n - 87)
         else if 65 \<le> n \<and> n \<le> 70 then Some (n - 55)
         else None)"

definition hex4 :: "char \<Rightarrow> char \<Rightarrow> char \<Rightarrow> char \<Rightarrow> nat option" where
  "hex4 a b c d =
     (case (hex_value a, hex_value b, hex_value c, hex_value d) of
        (Some w, Some x, Some y, Some z) \<Rightarrow> Some (4096 * w + 256 * x + 16 * y + z)
      | _ \<Rightarrow> None)"

definition simple_escape :: "char \<Rightarrow> char option" where
  "simple_escape e =
     (if e = dquote then Some dquote
      else if e = backslash then Some backslash
      else if e = CHR ''/'' then Some (CHR ''/'')
      else if e = CHR ''b'' then Some (CHR 0x08)
      else if e = CHR ''f'' then Some (CHR 0x0C)
      else if e = CHR ''n'' then Some (CHR 0x0A)
      else if e = CHR ''r'' then Some (CHR 0x0D)
      else if e = CHR ''t'' then Some (CHR 0x09)
      else None)"

text \<open>
  The characters of a string literal after the opening quote: a byte of the text as it
  stands, or the 16-bit unit of a \<^verbatim>\<open>\uXXXX\<close> escape.
\<close>

datatype str_item = Raw char | Unit nat

fun string_body :: "string \<Rightarrow> (str_item list \<times> string) option" where
  "string_body [] = None"
| "string_body (c # cs) =
     (if c = dquote then Some ([], cs)
      else if c = backslash
      then (case cs of
              [] \<Rightarrow> None
            | e # r \<Rightarrow>
                if e = CHR ''u''
                then (case r of
                        h1 # h2 # h3 # h4 # r' \<Rightarrow>
                          (case hex4 h1 h2 h3 h4 of
                             None \<Rightarrow> None
                           | Some n \<Rightarrow>
                               (case string_body r' of
                                  None \<Rightarrow> None
                                | Some (its, rest) \<Rightarrow> Some (Unit n # its, rest)))
                      | _ \<Rightarrow> None)
                else (case simple_escape e of
                        None \<Rightarrow> None
                      | Some ch \<Rightarrow>
                          (case string_body r of
                             None \<Rightarrow> None
                           | Some (its, rest) \<Rightarrow> Some (Raw ch # its, rest))))
      else if (of_char c :: nat) < 32 then None
      else (case string_body cs of
              None \<Rightarrow> None
            | Some (its, rest) \<Rightarrow> Some (Raw c # its, rest)))"

definition utf8_encode :: "nat \<Rightarrow> string" where
  "utf8_encode n =
     (if n < 128 then [char_of n]
      else if n < 2048 then [char_of (192 + n div 64), char_of (128 + n mod 64)]
      else if n < 65536
      then [char_of (224 + n div 4096), char_of (128 + n div 64 mod 64), char_of (128 + n mod 64)]
      else [char_of (240 + n div 262144), char_of (128 + n div 4096 mod 64),
            char_of (128 + n div 64 mod 64), char_of (128 + n mod 64)])"

fun encode_items :: "str_item list \<Rightarrow> string" where
  "encode_items [] = []"
| "encode_items (Raw c # r) = c # encode_items r"
| "encode_items (Unit h # Unit l # r) =
     (if 55296 \<le> h \<and> h < 56320 \<and> 56320 \<le> l \<and> l < 57344
      then utf8_encode (65536 + (h - 55296) * 1024 + (l - 56320)) @ encode_items r
      else utf8_encode h @ encode_items (Unit l # r))"
| "encode_items (Unit h # r) = utf8_encode h @ encode_items r"

text \<open>A later member with the same key replaces the value of the earlier one.\<close>

definition object_of :: "(string \<times> jsval) list \<Rightarrow> (string \<times> jsval) list" where
  "object_of kvs = foldl (\<lambda>al kv. AList.update (fst kv) (snd kv) al) [] kvs"

text \<open>
  The recursive descent of \<^verbatim>\<open>JSON.parse\<close>. The first argument bounds the depth of the
  recursion; one more than twice the length of the text is always enough (lemma
  \<open>JSON_parse_fuel\<close> below).
\<close>

datatype 'a parse = Malformed | OutOfFuel | Parsed 'a string

fun parse_value :: "nat \<Rightarrow> string \<Rightarrow> jsval parse"
  and parse_elements :: "nat \<Rightarrow> string \<Rightarrow> (jsval list) parse"
  and parse_members :: "nat \<Rightarrow> string \<Rightarrow> ((string \<times> jsval) list) parse"
where
  "parse_value 0 s = OutOfFuel"
| "parse_value (Suc n) s =
     (case s of
        [] \<Rightarrow> Malformed
      | c # r \<Rightarrow>
          if c = CHR ''{''
          then (case skip_ws r of
                  [] \<Rightarrow> Malformed
                | d # r' \<Rightarrow>
                    if d = CHR ''}'' then Parsed (Obj []) r'
                    else (case parse_members n (d # r') of
                            Malformed \<Rightarrow> Malformed
                          | OutOfFuel \<Rightarrow> OutOfFuel
                          | Parsed kvs r'' \<Rightarrow> Parsed (Obj (object_of kvs)) r''))
          else if c = CHR ''[''
          then (case skip_ws r of
                  [] \<Rightarrow> Malformed
                | d # r' \<Rightarrow>
                    if d = CHR '']'' then Parsed (Arr []) r'
                    else (case parse_elements n (d # r') of
                            Malformed \<Rightarrow> Malformed
                          | OutOfFuel \<Rightarrow> OutOfFuel
                          | Parsed vs r'' \<Rightarrow> Parsed (Arr vs) r''))
          else if c = dquote
          then (case string_body r of
                  None \<Rightarrow> Malformed
                | Some (its, r') \<Rightarrow> Parsed (Str (encode_items its)) r')
          else if take 4 s = ''true'' then Parsed (Bool True) (drop 4 s)
          else if take 5 s = ''false'' then Parsed (Bool False) (drop 5 s)
          else if take 4 s = ''null'' then Parsed Null (drop 4 s)
          else (case parse_number s of
                  None \<Rightarrow> Malformed
                | Some (v, r') \<Rightarrow> Parsed v r'))"
| "parse_elements 0 s = OutOfFuel"
| "parse_elements (Suc n) s =
     (case parse_value n s of
        Malformed \<Rightarrow> Malformed
      | OutOfFuel \<Rightarrow> OutOfFuel
      | Parsed v r \<Rightarrow>
          (case skip_ws r of
             [] \<Rightarrow> Malformed
           | d # r' \<Rightarrow>
               if d = CHR '',''
               then (case parse_elements n (skip_ws r') of
                       Malformed \<Rightarrow> Malformed
                     | OutOfFuel \<Rightarrow> OutOfFuel
                     | Parsed vs r'' \<Rightarrow> Parsed (v # vs) r'')
               else if d = CHR '']'' then Parsed [v] r'
               else Malformed))"
| "parse_members 0 s = OutOfFuel"
| "parse_members (Suc n) s =
     (case s of
        [] \<Rightarrow> Malformed
      | c # r \<Rightarrow>
          if c = dquote
          then (case string_body r of
                  None \<Rightarrow> Malformed
                | Some (its, r1) \<Rightarrow>
                    (case skip_ws r1 of
                       [] \<Rightarrow> Malformed
                     | d # r2 \<Rightarrow>
                         if d = CHR '':''
                         then (case parse_value n (skip_ws r2) of
                                 Malformed \<Rightarrow> Malformed
                               | OutOfFuel \<Rightarrow> OutOfFuel
                               | Parsed v r3 \<Rightarrow>
                                   (case skip_ws r3 of
                                      [] \<Rightarrow> Malformed
                                    | e # r4 \<Rightarrow>
                                        if e = CHR '',''
                                        then (case parse_members n (skip_ws r4) of
                                                Malformed \<Rightarrow> Malformed
                                              | OutOfFuel \<Rightarrow> OutOfFuel
                                              | Parsed kvs r5 \<Rightarrow>
                                                  Parsed ((encode_items its, v) # kvs) r5)
                                        else if e = CHR ''}''
                                        then Parsed [(encode_items its, v)] r4
                                        else Malformed))
                         else Malformed))
          else Malformed)"

text \<open>\<^verbatim>\<open>JSON.parse(text)\<close> for a string: \<open>None\<close> when it throws a SyntaxError.\<close>

definition JSON_parse :: "string \<Rightarrow> jsval option" where
  "JSON_parse s =
     (case parse_value (Suc (2 * length s)) (skip_ws s) of
        Parsed v r \<Rightarrow> if skip_ws r = [] then Some v else None
      | Malformed \<Rightarrow> None
      | OutOfFuel \<Rightarrow> None)"

text \<open>
  \<^verbatim>\<open>String(v)\<close>, which \<^verbatim>\<open>JSON.parse\<close> applies to an argument that is not a string. A
  number is printed as its plain decimal digits (the host switches to exponent notation
  from 1e21 and below 1e-6; both notations read back as the same number).
\<close>

definition number_to_string :: "int \<Rightarrow> nat \<Rightarrow> string" where
  "number_to_string m k =
     (if m < 0 then ''-'' else '''')
     @ (if k = 0 then decimal (nat \<bar>m\<bar>)
        else decimal (nat \<bar>m\<bar> div 10 ^ k) @ ''.''
             @ replicate (k - length (decimal (nat \<bar>m\<bar> mod 10 ^ k))) (CHR ''0'')
             @ decimal (nat \<bar>m\<bar> mod 10 ^ k))"

fun join_comma :: "string list \<Rightarrow> string" where
  "join_comma [] = []"
| "join_comma [x] = x"
| "join_comma (x # y # r) = x @ '','' @ join_comma (y # r)"

fun ToString :: "jsval \<Rightarrow> string" where
  "ToString Undefined = ''undefined''"
| "ToString Null = ''null''"
| "ToString (Bool b) = (if b then ''true'' else ''false'')"
| "ToString (Num m k) = number_to_string m k"
| "ToString (Str s) = s"
| "ToString (Arr xs) =
     join_comma (map (\<lambda>x. if x = Undefined \<or> x = Null then [] else ToString x) xs)"
| "ToString (Obj kvs) = ''[object Object]''"

text \<open>The values that count as true in a condition.\<close>

fun truthy :: "jsval \<Rightarrow> bool" where
  "truthy Undefined = False"
| "truthy Null = False"
| "truthy (Bool b) = b"
| "truthy (Num m k) = (m \<noteq> 0)"
| "truthy (Str s) = (s \<noteq> [])"
| "truthy (Arr xs) = True"
| "truthy (Obj kvs) = True"

text \<open>
  Reading the property \<open>k\<close> of a value that is neither \<^verbatim>\<open>undefined\<close> nor \<^verbatim>\<open>null\<close>. The
  keys the handlers read (\<^verbatim>\<open>candidates\<close>, \<^verbatim>\<open>content\<close>, \<^verbatim>\<open>parts\<close>, \<^verbatim>\<open>text\<close> and the
  index \<^verbatim>\<open>0\<close>) are on no built-in prototype, so only own properties answer. The index
  of a string addresses a byte here and a 16-bit unit in the host.
\<close>

definition array_index :: "string \<Rightarrow> nat option" where
  "array_index k =
     (if k \<noteq> [] \<and> list_all is_digit k \<and> decimal (digits_value k) = k
      then Some (digits_value k) else None)"

fun own_property :: "jsval \<Rightarrow> string \<Rightarrow> jsval" where
  "own_property (Obj kvs) k = (case map_of kvs k of Some v \<Rightarrow> v | None \<Rightarrow> Undefined)"
| "own_property (Arr xs) k =
     (if k = ''length'' then Num (int (length xs)) 0
      else (case array_index k of
              Some i \<Rightarrow> if i < length xs then xs ! i else Undefined
            | None \<Rightarrow> Undefined))"
| "own_property (Str s) k =
     (if k = ''length'' then Num (int (length s)) 0
      else (case array_index k of
              Some i \<Rightarrow> if i < length s then Str [s ! i] else Undefined
            | None \<Rightarrow> Undefined))"
| "own_property v k = Undefined"

datatype js_error = TypeError

text \<open>\<^verbatim>\<open>v.k\<close> and \<^verbatim>\<open>v[k]\<close> throw a TypeError on \<^verbatim>\<open>undefined\<close> and \<^verbatim>\<open>null\<close>.\<close>

definition get_prop :: "jsval \<Rightarrow> string \<Rightarrow> js_error + jsval" where
  "get_prop v k = (if v = Undefined \<or> v = Null then Inl TypeError else Inr (own_property v k))"

text \<open>\<^verbatim>\<open>v?.k\<close> and \<^verbatim>\<open>v?.[k]\<close> give \<^verbatim>\<open>undefined\<close> there.\<close>

definition opt_prop :: "jsval \<Rightarrow> string \<Rightarrow> jsval" where
  "opt_prop v k = (if v = Undefined \<or> v = Null then Undefined else own_property v k)"

definition bind_err :: "'e + 'a \<Rightarrow> ('a \<Rightarrow> 'e + 'b) \<Rightarrow> 'e + 'b" where
  "bind_err r f = (case r of Inl e \<Rightarrow> Inl e | Inr v \<Rightarrow> f v)"

section \<open>The normalization of the upstream response (both handlers)\<close>

text \<open>
  Lines 67 to 80 of api/proxy.js and 171 to 183 of server/index.js, which are the same
  code: the value handed to \<^verbatim>\<open>res.json\<close>, or the error that escapes to the handler's
  outer \<^verbatim>\<open>catch\<close>. The inner \<^verbatim>\<open>try\<close> covers \<^verbatim>\<open>JSON.parse\<close> only.
\<close>

definition normalize_upstream :: "jsval \<Rightarrow> js_error + jsval" where
  "normalize_upstream json =
     bind_err (get_prop json ''candidates'') (\<lambda>candidates.
       let candidate = opt_prop candidates ''0'' in
       bind_err
         (if truthy candidate
          then bind_err (get_prop candidate ''content'') (\<lambda>content.
                 Inr (opt_prop (opt_prop (opt_prop content ''parts'') ''0'') ''text''))
          else Inr candidate)
         (\<lambda>cond.
            if truthy cond
            then bind_err (get_prop candidate ''content'') (\<lambda>content.
                 bind_err (get_prop content ''parts'') (\<lambda>parts.
                 bind_err (get_prop parts ''0'') (\<lambda>part.
                 bind_err (get_prop part ''text'') (\<lambda>t.
                   case JSON_parse (ToString t) of
                     Some recommendations \<Rightarrow> Inr (Obj [(''recommendations'', recommendations)])
                   | None \<Rightarrow>
                       bind_err (get_prop json ''candidates'') (\<lambda>cs.
                         Inr (Obj [(''candidates'', cs)]))))))
            else Inr json))"

text \<open>
  The value found by following a path of keys with ordinary property reads, \<^verbatim>\<open>undefined\<close>
  as soon as a step is missing: \<^verbatim>\<open>x?.k1?.k2 ...\<close>.
\<close>

definition path_value :: "jsval \<Rightarrow> string list \<Rightarrow> jsval" where
  "path_value x ks = foldl opt_prop x ks"

text \<open>\<^verbatim>\<open>candidates[0].content.parts[0].text\<close>\<close>

definition text_path :: "string list" where
  "text_path = [''candidates'', ''0'', ''content'', ''parts'', ''0'', ''text'']"

text \<open>Whether the value has a property \<^verbatim>\<open>candidates\<close> that is an array.\<close>

definition has_candidates_array :: "jsval \<Rightarrow> bool" where
  "has_candidates_array x = (case own_property x ''candidates'' of Arr xs \<Rightarrow> True | _ \<Rightarrow> False)"

section \<open>Requests, responses and the upstream call\<close>

text \<open>
  What the handlers read of a request: the method, the headers \<^verbatim>\<open>x-forwarded-for\<close> and
  \<^verbatim>\<open>x-api-token\<close>, the socket's remote address, the parsed body and the raw body.
\<close>

record request =
  req_method :: string
  x_forwarded_for :: "string option"
  x_api_token :: "string option"
  remoteAddress :: "string option"
  req_body :: jsval
  rawBody :: "string option"

datatype body = JsonBody jsval | TextBody string

text \<open>A response: the status, the headers set with \<^verbatim>\<open>setHeader\<close>, and what was sent.\<close>

record response =
  status :: nat
  headers :: "(string \<times> string) list"
  content :: body

definition json_response :: "nat \<Rightarrow> jsval \<Rightarrow> response" where
  "json_response code v = \<lparr>status = code, headers = [], content = JsonBody v\<rparr>"

text \<open>
  The one outbound call: \<^verbatim>\<open>fetch(url, { method: 'POST', body: JSON.stringify(payload) })\<close>.
  The upstream service is a parameter of the handlers: it answers a call with a status
  and a text, or the call fails.
\<close>

record upstream_call =
  url :: string
  payload :: jsval

datatype upstream_result = NetworkFailure | Upstream nat string

text \<open>The environment variables, and the limits the Express server parses from them.\<close>

record environment =
  GEMINI_API_KEY :: "string option"
  GEMINI_MODEL :: "string option"
  API_TOKEN :: "string option"
  NO_AUTH :: bool
  DEMO_PROXY :: bool
  limits :: config

text \<open>A variable or header counts as present when it is set and not the empty string.\<close>

definition env_set :: "string option \<Rightarrow> bool" where
  "env_set v = (case v of None \<Rightarrow> False | Some s \<Rightarrow> s \<noteq> [])"

definition js_space :: "char \<Rightarrow> bool" where
  "js_space c = (c = CHR '' '' \<or> c = CHR 0x09 \<or> c = CHR 0x0A \<or> c = CHR 0x0B
                 \<or> c = CHR 0x0C \<or> c = CHR 0x0D)"

text \<open>\<^verbatim>\<open>s.trim()\<close>, for the ASCII white space.\<close>

definition trim :: "string \<Rightarrow> string" where
  "trim s = rev (dropWhile js_space (rev (dropWhile js_space s)))"

text \<open>
  \<^verbatim>\<open>(req.headers['x-forwarded-for'] || req.socket.remoteAddress || 'unknown')
  .split(',')[0].trim()\<close>
\<close>

definition getClientIp :: "request \<Rightarrow> string" where
  "getClientIp req =
     trim (takeWhile (\<lambda>c. c \<noteq> CHR '','')
       (if env_set (x_forwarded_for req) then the (x_forwarded_for req)
        else if env_set (remoteAddress req) then the (remoteAddress req)
        else ''unknown''))"

definition default_model :: string where
  "default_model = ''gemini-2.5-flash-preview-09-2025''"

definition gemini_url :: "string option \<Rightarrow> string option \<Rightarrow> string" where
  "gemini_url model key =
     ''https://generativelanguage.googleapis.com/v1beta/models/''
     @ (if env_set model then the model else default_model)
     @ '':generateContent?key='' @ (case key of Some k \<Rightarrow> k | None \<Rightarrow> [])"

section \<open>The Express server (server/index.js)\<close>

definition reason_name :: "reason \<Rightarrow> string" where
  "reason_name r = (case r of minute_limit \<Rightarrow> ''minute_limit'' | daily_limit \<Rightarrow> ''daily_limit'')"

definition demoRecommendations :: jsval where
  "demoRecommendations = Arr
     [Obj [(''name'', Str ''Java (New)''),
           (''url'', Str ''https://www.shl.com/solutions/products/product-catalog/view/java-new/''),
           (''adaptive_support'', Str ''No''),
           (''description'', Str ''Multi-choice test that measures the knowledge of Java programming, including core concepts, data structures, and OOP principles.''),
           (''duration'', Num 20 0),
           (''remote_support'', Str ''Yes''),
           (''test_type'', Arr [Str ''Knowledge & Skills''])],
      Obj [(''name'', Str ''Teamwork & Collaboration (SJT)''),
           (''url'', Str ''https://www.shl.com/solutions/products/product-catalog/view/teamwork-collaboration-sjt/''),
           (''adaptive_support'', Str ''No''),
           (''description'', Str ''A Situational Judgement Test (SJT) that assesses how an individual collaborates in a team environment.''),
           (''duration'', Num 20 0),
           (''remote_support'', Str ''Yes''),
           (''test_type'', Arr [Str ''Biodata & Situational Judgement'', Str ''Personality & Behavior''])],
      Obj [(''name'', Str ''Cognitive Ability (General)''),
           (''url'', Str ''https://www.shl.com/solutions/products/product-catalog/view/cognitive-ability-general/''),
           (''adaptive_support'', Str ''Yes''),
           (''description'', Str ''Measures verbal, numerical, and abstract reasoning. Good for analyst roles.''),
           (''duration'', Num 30 0),
           (''remote_support'', Str ''Yes''),
           (''test_type'', Arr [Str ''Ability & Aptitude''])],
      Obj [(''name'', Str ''Numerical Reasoning''),
           (''url'', Str ''https://www.shl.com/solutions/products/product-catalog/view/numerical-reasoning/''),
           (''adaptive_support'', Str ''Yes''),
           (''description'', Str ''Assesses the ability to work with and interpret numerical data, such as graphs, charts, and tables.''),
           (''duration'', Num 25 0),
           (''remote_support'', Str ''Yes''),
           (''test_type'', Arr [Str ''Ability & Aptitude''])],
      Obj [(''name'', Str ''Technology Professional 8.8 Job Focused Assessment''),
           (''url'', Str ''https://www.shl.com/solutions/products/product-catalog/view/technology-professional-8-8-job-focused-assessment/''),
           (''adaptive_support'', Str ''No''),
           (''description'', Str ''The Technology Job Focused Assessment assesses key behavioral attributes required for success in fast-paced roles.''),
           (''duration'', Num 16 0),
           (''remote_support'', Str ''Yes''),
           (''test_type'', Arr [Str ''Competencies'', Str ''Personality & Behavior''])]]"

text \<open>The authentication middleware: \<open>None\<close> is \<^verbatim>\<open>next()\<close>.\<close>

definition auth :: "environment \<Rightarrow> request \<Rightarrow> response option" where
  "auth env req =
     (if NO_AUTH env then None
      else if env_set (API_TOKEN env)
      then (if env_set (x_api_token req)
            then (if x_api_token req = API_TOKEN env then None
                  else Some (json_response 401 (Obj [(''error'', Str ''Unauthorized'')])))
            else Some (json_response 401 (Obj [(''error'', Str ''Unauthorized'')])))
      else Some (json_response 403
                   (Obj [(''error'', Str ''Server misconfigured: API_TOKEN not set'')])))"

text \<open>Lines 158 to 187: what is answered once the upstream call has returned or failed.\<close>

definition express_forward :: "upstream_result \<Rightarrow> response" where
  "express_forward r =
     (case r of
        NetworkFailure \<Rightarrow> json_response 500 (Obj [(''error'', Str ''Proxy internal error'')])
      | Upstream code text \<Rightarrow>
          if 200 \<le> code \<and> code \<le> 299
          then (case JSON_parse text of
                  None \<Rightarrow> json_response 500 (Obj [(''error'', Str ''Proxy internal error'')])
                | Some json \<Rightarrow>
                    (case normalize_upstream json of
                       Inl e \<Rightarrow> json_response 500 (Obj [(''error'', Str ''Proxy internal error'')])
                     | Inr v \<Rightarrow> json_response 200 v))
          else \<lparr>status = code, headers = [], content = TextBody text\<rparr>)"

text \<open>
  The handler of \<^verbatim>\<open>app.post('/proxy', ...)\<close>: the response, the limiter's state after the
  request and the upstream calls made.
\<close>

definition proxy_post ::
  "environment \<Rightarrow> (upstream_call \<Rightarrow> upstream_result) \<Rightarrow> millis \<Rightarrow> request \<Rightarrow> limiter_state
     \<Rightarrow> response \<times> limiter_state \<times> upstream_call list" where
  "proxy_post env upstream now req st =
     (if env_set (GEMINI_API_KEY env)
      then (case checkRateLimit (limits env) (getClientIp req) now st of
              (rate, st') \<Rightarrow>
                (case rate of
                   Reject r \<Rightarrow>
                     (json_response 429
                        (Obj [(''error'', Str ''Rate limit exceeded''),
                              (''reason'', Str (reason_name r))]),
                      st', [])
                 | Admit \<Rightarrow>
                     let call = \<lparr>url = gemini_url (GEMINI_MODEL env) (GEMINI_API_KEY env),
                                 payload = (if truthy (req_body req) then req_body req
                                            else Obj [])\<rparr>
                     in (express_forward (upstream call), st', [call])))
      else if DEMO_PROXY env
      then (json_response 200 (Obj [(''recommendations'', demoRecommendations)]), st, [])
      else (json_response 500
              (Obj [(''error'', Str ''GEMINI_API_KEY not configured on server'')]), st, []))"

text \<open>A POST to \<^verbatim>\<open>/proxy\<close>: the middleware, then the handler.\<close>

definition app_post_proxy ::
  "environment \<Rightarrow> (upstream_call \<Rightarrow> upstream_result) \<Rightarrow> millis \<Rightarrow> request \<Rightarrow> limiter_state
     \<Rightarrow> response \<times> limiter_state \<times> upstream_call list" where
  "app_post_proxy env upstream now req st =
     (case auth env req of
        Some resp \<Rightarrow> (resp, st, [])
      | None \<Rightarrow> proxy_post env upstream now req st)"

section \<open>The serverless function (api/proxy.js)\<close>

text \<open>\<^verbatim>\<open>Object.keys(v).length\<close> for a value that counts as true.\<close>

definition keys_count :: "jsval \<Rightarrow> nat" where
  "keys_count v =
     (case v of Obj kvs \<Rightarrow> length kvs | Arr xs \<Rightarrow> length xs | Str s \<Rightarrow> length s | _ \<Rightarrow> 0)"

text \<open>Lines 41 to 49: the body that is forwarded.\<close>

definition forwarded_body :: "request \<Rightarrow> jsval" where
  "forwarded_body req =
     (let reparsed =
            (case JSON_parse (if env_set (rawBody req) then the (rawBody req) else ''{}'') of
               Some v \<Rightarrow> v
             | None \<Rightarrow> req_body req)
      in if truthy (req_body req)
         then (if keys_count (req_body req) = 0 then reparsed else req_body req)
         else reparsed)"

text \<open>Lines 51 to 85.\<close>

definition serverless_forward :: "upstream_result \<Rightarrow> response" where
  "serverless_forward r =
     (case r of
        NetworkFailure \<Rightarrow>
          json_response 500 (Obj [(''error'', Str ''Proxy encountered an internal error.'')])
      | Upstream code text \<Rightarrow>
          if 200 \<le> code \<and> code \<le> 299
          then (case JSON_parse text of
                  None \<Rightarrow>
                    json_response 500
                      (Obj [(''error'', Str ''Proxy encountered an internal error.'')])
                | Some json \<Rightarrow>
                    (case normalize_upstream json of
                       Inl e \<Rightarrow>
                         json_response 500
                           (Obj [(''error'', Str ''Proxy encountered an internal error.'')])
                     | Inr v \<Rightarrow> json_response 200 v))
          else \<lparr>status = code, headers = [], content = TextBody text\<rparr>)"

text \<open>
  The exported \<^verbatim>\<open>handler\<close>: the response, \<^verbatim>\<open>ipCounters\<close> after the request and the upstream
  calls made.
\<close>

definition handler ::
  "environment \<Rightarrow> (upstream_call \<Rightarrow> upstream_result) \<Rightarrow> millis \<Rightarrow> request \<Rightarrow> ip_counters
     \<Rightarrow> response \<times> ip_counters \<times> upstream_call list" where
  "handler env upstream now req ipCounters =
     (if req_method req \<noteq> ''POST''
      then (\<lparr>status = 405, headers = [(''Allow'', ''POST'')],
             content = TextBody ''Method Not Allowed''\<rparr>, ipCounters, [])
      else if env_set (GEMINI_API_KEY env)
      then (case rate_limit_sl (getClientIp req) now ipCounters of
              (allowed, ipCounters') \<Rightarrow>
                if allowed
                then (let call = \<lparr>url = gemini_url (GEMINI_MODEL env) (GEMINI_API_KEY env),
                                  payload = forwarded_body req\<rparr>
                      in (serverless_forward (upstream call), ipCounters', [call]))
                else (json_response 429
                        (Obj [(''error'', Str ''Rate limit exceeded. Try again later.'')]),
                      ipCounters', []))
      else (json_response 403
              (Obj [(''error'', Str ''GEMINI_API_KEY not configured on server. Please set the environment variable.'')]),
            ipCounters, []))"

section \<open>Test configurations, example states and invariants\<close>

text \<open>A test configuration with small ceilings: one request per minute, two per day.\<close>

definition cfg_1_2 :: config where
  "cfg_1_2 = \<lparr>MAX_REQUESTS_PER_MIN = 1, MAX_DAILY_REQUESTS = 2\<rparr>"


text \<open>The test configuration of the daily ceiling: 60 requests per minute, three per day.\<close>

definition cfg_60_3 :: config where
  "cfg_60_3 = \<lparr>MAX_REQUESTS_PER_MIN = 60, MAX_DAILY_REQUESTS = 3\<rparr>"

text \<open>The store and the table after one call of client \<open>a\<close> at time 0.\<close>

definition redis_after_first :: limiter_state where
  "redis_after_first =
     \<lparr>redis = Some [''rl:a:0'' \<mapsto> (1, Some 65000), ''daily:a:1970-01-01'' \<mapsto> (1, Some 86460000)],
      ipMap = Map.empty\<rparr>"

definition mem_after_first :: limiter_state where
  "mem_after_first =
     \<lparr>redis = None,
      ipMap = [''a'' \<mapsto> \<lparr>minute = 0, count = 1, day = ''1970-01-01'', dayCount = 1\<rparr>]\<rparr>"








text \<open>The spec's examples of an upstream body, and two more.\<close>

definition wrap_text :: "jsval \<Rightarrow> jsval" where
  "wrap_text t = Arr [Obj [(''content'', Obj [(''parts'', Arr [Obj [(''text'', t)]])])]]"

definition example_text :: string where
  "example_text = ''[{'' @ quoted ''name'' @ '':'' @ quoted ''X'' @ ''}]''"

definition example_upstream :: jsval where
  "example_upstream = Obj [(''candidates'', wrap_text (Str example_text))]"

definition example_not_json :: jsval where
  "example_not_json = Obj [(''candidates'', wrap_text (Str ''not json''))]"

definition example_foo_bar :: jsval where
  "example_foo_bar = Obj [(''foo'', Str ''bar'')]"

definition example_empty_text :: jsval where
  "example_empty_text =
     Obj [(''candidates'', wrap_text (Str '''')), (''modelVersion'', Str ''m'')]"

definition example_array_like :: jsval where
  "example_array_like =
     Obj [(''candidates'',
           Obj [(''0'', Obj [(''content'', Obj [(''parts'', Arr [Obj [(''text'', Str ''1'')]])])])])]"

text \<open>Example requests and environments.\<close>

definition example_env :: environment where
  "example_env =
     \<lparr>GEMINI_API_KEY = Some ''secret'', GEMINI_MODEL = None, API_TOKEN = None,
      NO_AUTH = True, DEMO_PROXY = False, limits = cfg_1_2\<rparr>"

definition example_env_no_key :: environment where
  "example_env_no_key = example_env\<lparr>GEMINI_API_KEY := None\<rparr>"

definition example_post :: request where
  "example_post =
     \<lparr>req_method = ''POST'', x_forwarded_for = Some ''a, 10.0.0.1'', x_api_token = None,
      remoteAddress = Some ''10.0.0.1'', req_body = Obj [(''contents'', Arr [])],
      rawBody = None\<rparr>"

definition example_get :: request where
  "example_get = example_post\<lparr>req_method := ''GET''\<rparr>"

text \<open>An upstream service that cannot be reached.\<close>

definition upstream_unreachable :: "upstream_call \<Rightarrow> upstream_result" where
  "upstream_unreachable call = NetworkFailure"

text \<open>\<^verbatim>\<open>ipCounters\<close> after sixty requests of client \<open>a\<close> at time 0.\<close>

definition counters_after_sixty :: ip_counters where
  "counters_after_sixty = final_sl Map.empty (map (Pair ''a'') (replicate 60 0))"

section \<open>Keys and dates\<close>



lemma decimal_digit: "n < 10 \<Longrightarrow> decimal n = [digit_char n]"
  by (subst decimal.simps) simp





lemma minuteKey_neq_dayKey [simp]:
  "minuteKey c t \<noteq> dayKey c' t'" "dayKey c' t' \<noteq> minuteKey c t"
  by (simp_all add: minuteKey_def dayKey_def)


lemmas date_eval =
  isoDate_def toISOString_def civil_from_days_def pad_zero_def digit_char_def decimal.simps

lemma isoDate_0: "isoDate 0 = ''1970-01-01''"
  by (simp add: date_eval cong: let_weak_cong)

lemma isoDate_1000: "isoDate 1000 = ''1970-01-01''"
  by (simp add: date_eval cong: let_weak_cong)


lemma isoDate_60000: "isoDate 60000 = ''1970-01-01''"
  by (simp add: date_eval cong: let_weak_cong)

lemma isoDate_120000: "isoDate 120000 = ''1970-01-01''"
  by (simp add: date_eval cong: let_weak_cong)

lemma isoDate_next_day: "isoDate 86400000 = ''1970-01-02''"
  by (simp add: date_eval cong: let_weak_cong)

section \<open>The counting store\<close>

lemma redis_incr_other: "k' \<noteq> k \<Longrightarrow> snd (redis_incr t k db) k' = db k'"
  by (simp add: redis_incr_def split: option.splits)

lemma redis_expire_other: "k' \<noteq> k \<Longrightarrow> redis_expire t k s db k' = db k'"
  by (simp add: redis_expire_def split: option.splits)

section \<open>One call of the limiter\<close>

lemma checkRateLimit_redis_mode:
  "redis st = Some db \<Longrightarrow> checkRateLimit cfg c t st =
     (fst (checkRateLimit_redis cfg c t db),
      st\<lparr>redis := Some (snd (checkRateLimit_redis cfg c t db))\<rparr>)"
  by (simp add: checkRateLimit_def case_prod_beta)

lemma checkRateLimit_mem_mode:
  "redis st = None \<Longrightarrow> checkRateLimit cfg c t st =
     (fst (checkRateLimit_mem cfg c t (ipMap st)),
      st\<lparr>ipMap := snd (checkRateLimit_mem cfg c t (ipMap st))\<rparr>)"
  by (simp add: checkRateLimit_def case_prod_beta)

lemma redis_minute_reject_other:
  assumes "fst (checkRateLimit_redis cfg c t db) = Reject minute_limit" "k \<noteq> minuteKey c t"
  shows "snd (checkRateLimit_redis cfg c t db) k = db k"
proof -
  obtain n db1 where i: "redis_incr t (minuteKey c t) db = (n, db1)" by force
  have o: "db1 k = db k" using redis_incr_other [OF assms(2), of t db] i by simp
  define db2 where "db2 = (if n = 1 then redis_expire t (minuteKey c t) 65 db1 else db1)"
  have o2: "db2 k = db k" using o assms(2) by (simp add: db2_def redis_expire_other)
  have big: "int n > MAX_REQUESTS_PER_MIN cfg"
  proof (rule ccontr)
    assume "\<not> int n > MAX_REQUESTS_PER_MIN cfg"
    then have "fst (checkRateLimit_redis cfg c t db) \<noteq> Reject minute_limit"
      by (simp add: checkRateLimit_redis_def i Let_def split: prod.splits)
    with assms(1) show False by simp
  qed
  then have "snd (checkRateLimit_redis cfg c t db) = db2"
    by (simp add: checkRateLimit_redis_def i Let_def db2_def)
  with o2 show ?thesis by simp
qed

lemma mem_daily_incr:
  "redis st = None \<Longrightarrow>
     daily_counter (snd (checkRateLimit cfg c t st)) c t = daily_counter st c t + 1"
  by (simp add: checkRateLimit_mem_mode checkRateLimit_mem_def daily_counter_def Let_def
      split: option.splits)

lemma redis_minute_reject_daily:
  assumes r: "redis st = Some db"
    and rej: "fst (checkRateLimit cfg c t st) = Reject minute_limit"
  shows "daily_counter (snd (checkRateLimit cfg c t st)) c t = daily_counter st c t"
proof -
  note m = checkRateLimit_redis_mode [OF r, of cfg c t]
  have f: "fst (checkRateLimit_redis cfg c t db) = Reject minute_limit"
    using rej unfolding m by simp
  have k: "snd (checkRateLimit_redis cfg c t db) (dayKey c t) = db (dayKey c t)"
    by (rule redis_minute_reject_other [OF f]) simp
  have "daily_counter (snd (checkRateLimit cfg c t st)) c t
          = redis_count t (snd (checkRateLimit_redis cfg c t db)) (dayKey c t)"
    unfolding m by (simp add: daily_counter_def)
  also have "\<dots> = redis_count t db (dayKey c t)"
    using k by (simp add: redis_count_def redis_live_def)
  also have "\<dots> = daily_counter st c t" by (simp add: daily_counter_def r)
  finally show ?thesis .
qed

text \<open>Concrete runs used below.\<close>

lemmas limiter_eval =
  redis_start_def mem_start_def checkRateLimit_def checkRateLimit_redis_def
  checkRateLimit_mem_def redis_incr_def redis_expire_def redis_live_def redis_count_def
  minuteKey_def dayKey_def daily_counter_def window_count_def

lemma redis_first_call:
  "checkRateLimit cfg_1_2 ''a'' 0 redis_start = (Admit, redis_after_first)"
  by (simp add: cfg_1_2_def limiter_eval isoDate_0 redis_after_first_def decimal_digit digit_char_def Let_def
      cong: let_weak_cong)

lemma mem_first_call:
  "checkRateLimit cfg_1_2 ''a'' 0 mem_start = (Admit, mem_after_first)"
  by (simp add: cfg_1_2_def limiter_eval isoDate_0 mem_after_first_def Let_def cong: let_weak_cong)

section \<open>Dates, store operations and single calls\<close>















section \<open>Runs of one client\<close>























section \<open>Keys of different clients, and the two variants after the same calls\<close>




















section \<open>Runs of the serverless limiter\<close>

lemma final_sl_append: "final_sl m (xs @ ys) = final_sl (final_sl m xs) ys"
  by (induction m xs rule: final_sl.induct) simp_all


lemma sl_call_new:
  assumes "m c = None"
  shows "fst (rate_limit_sl c t m) = True"
    and "snd (rate_limit_sl c t m) c = Some \<lparr>count_sl = 1, start_sl = t\<rparr>"
  using assms
  by (simp_all add: rate_limit_sl_def Let_def MAX_REQUESTS_PER_WINDOW_def RATE_LIMIT_WINDOW_MS_def)

lemma sl_call_same_window:
  assumes "m c = Some e" and "int t - int (start_sl e) \<le> 60000"
  shows "fst (rate_limit_sl c t m) = (count_sl e + 1 \<le> 60)"
    and "snd (rate_limit_sl c t m) c = Some (e\<lparr>count_sl := count_sl e + 1\<rparr>)"
  using assms
  by (auto simp add: rate_limit_sl_def Let_def MAX_REQUESTS_PER_WINDOW_def RATE_LIMIT_WINDOW_MS_def)

lemma sl_call_new_window:
  assumes "m c = Some e" and "int t - int (start_sl e) > 60000"
  shows "fst (rate_limit_sl c t m) = True"
    and "snd (rate_limit_sl c t m) c = Some \<lparr>count_sl = 1, start_sl = t\<rparr>"
  using assms
  by (simp_all add: rate_limit_sl_def Let_def MAX_REQUESTS_PER_WINDOW_def RATE_LIMIT_WINDOW_MS_def)

lemma sl_call_closed:
  assumes "\<not> window_open_sl m c t"
  shows "fst (rate_limit_sl c t m) = True"
    and "snd (rate_limit_sl c t m) c = Some \<lparr>count_sl = 1, start_sl = t\<rparr>"
proof -
  show "fst (rate_limit_sl c t m) = True"
  proof (cases "m c")
    case None
    then show ?thesis by (rule sl_call_new(1))
  next
    case (Some e)
    with assms have "int t - int (start_sl e) > 60000"
      by (simp add: window_open_sl_def RATE_LIMIT_WINDOW_MS_def)
    with Some show ?thesis by (rule sl_call_new_window(1))
  qed
  show "snd (rate_limit_sl c t m) c = Some \<lparr>count_sl = 1, start_sl = t\<rparr>"
  proof (cases "m c")
    case None
    then show ?thesis by (rule sl_call_new(2))
  next
    case (Some e)
    with assms have "int t - int (start_sl e) > 60000"
      by (simp add: window_open_sl_def RATE_LIMIT_WINDOW_MS_def)
    with Some show ?thesis by (rule sl_call_new_window(2))
  qed
qed

text \<open>
  A run of one client's requests, none more than 60000 ms after the first, from any table
  in which the client has no window open at the first.
\<close>

lemma sl_run:
  assumes "ts \<noteq> []" and "\<forall>t \<in> set ts. int t - int (hd ts) \<le> 60000"
    and "\<not> window_open_sl m0 c (hd ts)"
  shows "final_sl m0 (map (Pair c) ts) c = Some \<lparr>count_sl = length ts, start_sl = hd ts\<rparr>"
  using assms
proof (induction ts rule: rev_nonempty_induct)
  case (single t)
  then have "\<not> window_open_sl m0 c t" by simp
  from sl_call_closed(2) [OF this] show ?case by simp
next
  case (snoc t ts)
  let ?m = "final_sl m0 (map (Pair c) ts)"
  let ?e = "\<lparr>count_sl = length ts, start_sl = hd ts\<rparr>"
  from snoc have ih: "?m c = Some ?e" and t: "int t - int (hd ts) \<le> 60000" by simp_all
  have "snd (rate_limit_sl c t ?m) c = Some (?e\<lparr>count_sl := count_sl ?e + 1\<rparr>)"
    by (rule sl_call_same_window [where m = ?m and c = c, OF ih]) (simp add: t)
  then show ?case using snoc.hyps(1) by (simp add: final_sl_append)
qed





lemma counters_after_sixty_a:
  "counters_after_sixty ''a'' = Some \<lparr>count_sl = 60, start_sl = 0\<rparr>"
proof -
  have ne: "replicate 60 (0::nat) \<noteq> []" by simp
  have w: "\<forall>t \<in> set (replicate 60 (0::nat)). int t - int (hd (replicate 60 (0::nat))) \<le> 60000"
    by simp
  have f: "\<not> window_open_sl Map.empty ''a'' (hd (replicate 60 (0::nat)))"
    by (simp add: window_open_sl_def)
  from sl_run [OF ne w f] show ?thesis by (simp add: counters_after_sixty_def)
qed

section \<open>Parsing and normalization\<close>

lemmas parse_numeral =
  parse_value.simps(2) [of "pred_numeral k" for k, folded numeral_eq_Suc]
  parse_elements.simps(2) [of "pred_numeral k" for k, folded numeral_eq_Suc]
  parse_members.simps(2) [of "pred_numeral k" for k, folded numeral_eq_Suc]
  strip_zeros.simps(2) [of _ "pred_numeral k" for k, folded numeral_eq_Suc]

lemmas json_eval = JSON_parse_def skip_ws_def is_ws_def dquote_def backslash_def quoted_def
  parse_number_def parse_fraction_def parse_exponent_def make_number_def is_digit_def
  digit_value_def digits_value_def hex4_def hex_value_def simple_escape_def object_of_def
  utf8_encode_def parse_numeral

lemma JSON_parse_example: "JSON_parse example_text = Some (Arr [Obj [(''name'', Str ''X'')]])"
  by (simp add: example_text_def json_eval cong: let_weak_cong)

lemma JSON_parse_not_json: "JSON_parse ''not json'' = None"
  by (simp add: json_eval cong: let_weak_cong)

lemma JSON_parse_empty: "JSON_parse [] = None"
  by (simp add: json_eval)

lemma JSON_parse_one: "JSON_parse ''1'' = Some (Num 1 0)"
  by (simp add: json_eval Let_def cong: let_weak_cong)

lemma JSON_parse_nonempty: "JSON_parse t = Some v \<Longrightarrow> t \<noteq> []"
  using JSON_parse_empty by auto

lemma truthy_not_nullish: "truthy v \<Longrightarrow> v \<noteq> Undefined \<and> v \<noteq> Null"
  by (cases v) simp_all

lemma opt_prop_nullish [simp]: "opt_prop Undefined k = Undefined" "opt_prop Null k = Undefined"
  by (simp_all add: opt_prop_def)

lemma opt_prop_defined: "opt_prop v k \<noteq> Undefined \<Longrightarrow> v \<noteq> Undefined \<and> v \<noteq> Null"
  by (auto simp: opt_prop_def)

lemma get_prop_defined: "v \<noteq> Undefined \<Longrightarrow> v \<noteq> Null \<Longrightarrow> get_prop v k = Inr (opt_prop v k)"
  by (simp add: get_prop_def opt_prop_def)

lemma array_index_word [simp]:
  "array_index ''content'' = None" "array_index ''parts'' = None" "array_index ''text'' = None"
  by (simp_all add: array_index_def is_digit_def)

lemma falsy_content: "\<not> truthy v \<Longrightarrow> opt_prop v ''content'' = Undefined"
  by (cases v) (simp_all add: opt_prop_def)

lemma normalize_upstream_cases:
  assumes "x \<noteq> Undefined" "x \<noteq> Null"
  shows "normalize_upstream x =
           (if truthy (path_value x text_path)
            then (case JSON_parse (ToString (path_value x text_path)) of
                    Some r \<Rightarrow> Inr (Obj [(''recommendations'', r)])
                  | None \<Rightarrow> Inr (Obj [(''candidates'', opt_prop x ''candidates'')]))
            else Inr x)"
proof -
  let ?cands = "opt_prop x ''candidates''"
  let ?cand = "opt_prop ?cands ''0''"
  let ?content = "opt_prop ?cand ''content''"
  let ?parts = "opt_prop ?content ''parts''"
  let ?part = "opt_prop ?parts ''0''"
  let ?t = "opt_prop ?part ''text''"
  have pv: "path_value x text_path = ?t" by (simp add: path_value_def text_path_def)
  have c: "get_prop x ''candidates'' = Inr ?cands" using assms by (rule get_prop_defined)
  show ?thesis
  proof (cases "truthy ?cand")
    case False
    then have "?content = Undefined" by (rule falsy_content)
    then have "\<not> truthy ?t" by simp
    with False show ?thesis
      unfolding pv normalize_upstream_def c by (simp add: bind_err_def Let_def)
  next
    case True
    then have n1: "?cand \<noteq> Undefined" "?cand \<noteq> Null" by (simp_all add: truthy_not_nullish)
    have g1: "get_prop ?cand ''content'' = Inr ?content" using n1 by (rule get_prop_defined)
    show ?thesis
    proof (cases "truthy ?t")
      case False
      with True show ?thesis
        unfolding pv normalize_upstream_def c by (simp add: bind_err_def Let_def g1)
    next
      case t: True
      then have "?t \<noteq> Undefined" by auto
      then have n4: "?part \<noteq> Undefined" "?part \<noteq> Null" using opt_prop_defined by blast+
      then have n3: "?parts \<noteq> Undefined" "?parts \<noteq> Null" using opt_prop_defined by blast+
      then have n2: "?content \<noteq> Undefined" "?content \<noteq> Null" using opt_prop_defined by blast+
      have g2: "get_prop ?content ''parts'' = Inr ?parts" using n2 by (rule get_prop_defined)
      have g3: "get_prop ?parts ''0'' = Inr ?part" using n3 by (rule get_prop_defined)
      have g4: "get_prop ?part ''text'' = Inr ?t" using n4 by (rule get_prop_defined)
      show ?thesis
        unfolding pv normalize_upstream_def c using True t
        by (simp add: bind_err_def Let_def g1 g2 g3 g4 split: option.splits)
    qed
  qed
qed

lemma normalize_upstream_nullish: "normalize_upstream Null = Inl TypeError" "normalize_upstream Undefined = Inl TypeError"
  by (simp_all add: normalize_upstream_def get_prop_def bind_err_def)

section \<open>The parser always has fuel enough\<close>

lemma skip_ws_le: "length (skip_ws s) \<le> length s"
  by (simp add: skip_ws_def length_dropWhile_le)

lemma skip_ws_Cons_le: "skip_ws s = d # r \<Longrightarrow> length r < length s"
  using skip_ws_le [of s] by simp

lemma string_body_shorter: "string_body s = Some (its, r) \<Longrightarrow> length r < length s"
proof (induction s arbitrary: its r rule: string_body.induct)
  case 1
  then show ?case by simp
next
  case (2 c cs)
  show ?case
  proof (cases "c = dquote")
    case True
    with "2.prems" show ?thesis by simp
  next
    case nq: False
    show ?thesis
    proof (cases "c = backslash")
      case False
      with nq "2.prems" obtain its' where "string_body cs = Some (its', r)"
        by (auto split: if_splits option.splits)
      from "2.IH"(3) [OF nq False _ this] "2.prems" nq False show ?thesis
        by (auto split: if_splits)
    next
      case True
      show ?thesis
      proof (cases cs)
        case Nil
        with "2.prems" nq True show ?thesis by simp
      next
        case (Cons e r0)
        show ?thesis
        proof (cases "e = CHR ''u''")
          case False
          with "2.prems" nq True Cons obtain ch its' where
            "simple_escape e = Some ch" "string_body r0 = Some (its', r)"
            by (auto split: option.splits)
          from "2.IH"(2) [OF nq True Cons False this(1) this(2)] Cons show ?thesis by simp
        next
          case u: True
          with "2.prems" nq True Cons obtain h1 h2 h3 h4 r' n its' where
            r0: "r0 = h1 # h2 # h3 # h4 # r'" and h: "hex4 h1 h2 h3 h4 = Some n"
            and b: "string_body r' = Some (its', r)"
            by (auto split: list.splits option.splits)
          from "2.IH"(1) [OF nq True Cons u r0 refl refl refl h b] Cons r0 show ?thesis by simp
        qed
      qed
    qed
  qed
qed

lemma parse_fraction_le: "parse_fraction s = Some (fp, r) \<Longrightarrow> length r \<le> length s"
  by (auto simp: parse_fraction_def length_dropWhile_le le_SucI split: list.splits if_splits)

lemma parse_exponent_le: "parse_exponent s = Some (ex, r) \<Longrightarrow> length r \<le> length s"
proof (cases s)
  case Nil
  then show "parse_exponent s = Some (ex, r) \<Longrightarrow> length r \<le> length s"
    by (simp add: parse_exponent_def)
next
  case (Cons c t)
  assume p: "parse_exponent s = Some (ex, r)"
  show "length r \<le> length s"
  proof (cases "c = CHR ''e'' \<or> c = CHR ''E''")
    case False
    with p Cons show ?thesis by (auto simp: parse_exponent_def)
  next
    case True
    define r1 where "r1 = (if take 1 t = ''-'' \<or> take 1 t = ''+'' then drop 1 t else t)"
    have "length r1 \<le> length t" by (simp add: r1_def)
    moreover have "r = dropWhile is_digit r1"
      using p Cons True by (auto simp: parse_exponent_def Let_def r1_def split: if_splits)
    ultimately have "length r \<le> length t"
      using length_dropWhile_le [of is_digit r1] by simp
    with Cons show ?thesis by simp
  qed
qed

lemma parse_number_shorter: "parse_number s = Some (v, r) \<Longrightarrow> length r < length s"
proof -
  assume p: "parse_number s = Some (v, r)"
  define s1 where "s1 = (if take 1 s = ''-'' then drop 1 s else s)"
  define ip where "ip = (if take 1 s1 = ''0'' then ''0'' else takeWhile is_digit s1)"
  define s2 where "s2 = drop (length ip) s1"
  from p have ne: "ip \<noteq> []"
    by (auto simp: parse_number_def Let_def s1_def ip_def split: if_splits)
  from p obtain fp s3 ex where f: "parse_fraction s2 = Some (fp, s3)"
    and e: "parse_exponent s3 = Some (ex, r)"
    by (auto simp: parse_number_def Let_def s1_def ip_def s2_def
        split: if_splits option.splits)
  have l1: "length s1 \<le> length s" by (simp add: s1_def)
  have "length ip \<le> length s1"
  proof (cases "take 1 s1 = ''0''")
    case True
    then have "s1 \<noteq> []" by auto
    with True show ?thesis by (cases s1) (simp_all add: ip_def)
  next
    case False
    then show ?thesis by (simp add: ip_def length_takeWhile_le)
  qed
  with ne have "length s2 < length s1" by (cases ip) (simp_all add: s2_def)
  with parse_fraction_le [OF f] parse_exponent_le [OF e] l1 show ?thesis by linarith
qed

lemma value_step:
  assumes e: "\<And>s. (2 * length s + 1 < n \<longrightarrow> parse_elements n s \<noteq> OutOfFuel)
                  \<and> (\<forall>vs r. parse_elements n s = Parsed vs r \<longrightarrow> length r < length s)"
    and m: "\<And>s. (2 * length s + 1 < n \<longrightarrow> parse_members n s \<noteq> OutOfFuel)
                  \<and> (\<forall>kvs r. parse_members n s = Parsed kvs r \<longrightarrow> length r < length s)"
  shows "(2 * length s < Suc n \<longrightarrow> parse_value (Suc n) s \<noteq> OutOfFuel)
         \<and> (\<forall>v r. parse_value (Suc n) s = Parsed v r \<longrightarrow> length r < length s)"
proof (cases s)
  case Nil
  then show ?thesis by simp
next
  case (Cons c r0)
  have l: "length s = Suc (length r0)" using Cons by simp
  have d4: "length (drop 4 s) < length s" "length (drop 5 s) < length s"
    using Cons by simp_all
  show ?thesis
  proof (cases "c = CHR ''{''")
    case True
    show ?thesis
    proof (cases "skip_ws r0")
      case Nil
      with True Cons show ?thesis by simp
    next
      case sk: (Cons d r')
      have dl: "length (d # r') \<le> length r0" using skip_ws_le [of r0] sk by simp
      have rl: "length r' < length s" using dl l by simp
      show ?thesis
      proof (cases "d = CHR ''}''")
        case close: True
        with True Cons sk rl show ?thesis by simp
      next
        case False
        then have pv: "parse_value (Suc n) s =
            (case parse_members n (d # r') of
               Malformed \<Rightarrow> Malformed
             | OutOfFuel \<Rightarrow> OutOfFuel
             | Parsed kvs r'' \<Rightarrow> Parsed (Obj (object_of kvs)) r'')"
          using True Cons sk by simp
        show ?thesis
        proof (cases "parse_members n (d # r')")
          case Malformed
          then show ?thesis unfolding pv by simp
        next
          case OutOfFuel
          with m [of "d # r'"] dl l show ?thesis unfolding pv by auto
        next
          case (Parsed kvs r'')
          with m [of "d # r'"] dl l show ?thesis unfolding pv by auto
        qed
      qed
    qed
  next
    case nb: False
    show ?thesis
    proof (cases "c = CHR ''[''")
      case True
      show ?thesis
      proof (cases "skip_ws r0")
        case Nil
        with True Cons show ?thesis by simp
      next
        case sk: (Cons d r')
        have dl: "length (d # r') \<le> length r0" using skip_ws_le [of r0] sk by simp
        have rl: "length r' < length s" using dl l by simp
        show ?thesis
        proof (cases "d = CHR '']''")
          case close: True
          with True Cons sk rl show ?thesis by simp
        next
          case False
          then have pv: "parse_value (Suc n) s =
              (case parse_elements n (d # r') of
                 Malformed \<Rightarrow> Malformed
               | OutOfFuel \<Rightarrow> OutOfFuel
               | Parsed vs r'' \<Rightarrow> Parsed (Arr vs) r'')"
            using True Cons sk by simp
          show ?thesis
          proof (cases "parse_elements n (d # r')")
            case Malformed
            then show ?thesis unfolding pv by simp
          next
            case OutOfFuel
            with e [of "d # r'"] dl l show ?thesis unfolding pv by auto
          next
            case (Parsed vs r'')
            with e [of "d # r'"] dl l show ?thesis unfolding pv by auto
          qed
        qed
      qed
    next
      case False
      then have pv: "parse_value (Suc n) s =
          (if c = dquote
           then (case string_body r0 of
                   None \<Rightarrow> Malformed
                 | Some (its, r') \<Rightarrow> Parsed (Str (encode_items its)) r')
           else if take 4 s = ''true'' then Parsed (Bool True) (drop 4 s)
           else if take 5 s = ''false'' then Parsed (Bool False) (drop 5 s)
           else if take 4 s = ''null'' then Parsed Null (drop 4 s)
           else (case parse_number s of
                   None \<Rightarrow> Malformed
                 | Some (v, r') \<Rightarrow> Parsed v r'))"
        using nb Cons by simp
      have sb: "\<And>its r'. string_body r0 = Some (its, r') \<Longrightarrow> length r' < length s"
        using l by (auto dest: string_body_shorter)
      show ?thesis
        unfolding pv using d4 sb
        by (auto split: option.splits dest: parse_number_shorter)
    qed
  qed
qed

lemma elements_step:
  assumes v: "\<And>s. (2 * length s < n \<longrightarrow> parse_value n s \<noteq> OutOfFuel)
                  \<and> (\<forall>v r. parse_value n s = Parsed v r \<longrightarrow> length r < length s)"
    and e: "\<And>s. (2 * length s + 1 < n \<longrightarrow> parse_elements n s \<noteq> OutOfFuel)
                  \<and> (\<forall>vs r. parse_elements n s = Parsed vs r \<longrightarrow> length r < length s)"
  shows "(2 * length s + 1 < Suc n \<longrightarrow> parse_elements (Suc n) s \<noteq> OutOfFuel)
         \<and> (\<forall>vs r. parse_elements (Suc n) s = Parsed vs r \<longrightarrow> length r < length s)"
proof (cases "parse_value n s")
  case Malformed
  then show ?thesis by simp
next
  case OutOfFuel
  with v [of s] show ?thesis by auto
next
  case (Parsed x r1)
  with v [of s] have r1: "length r1 < length s" by simp
  show ?thesis
  proof (cases "skip_ws r1")
    case Nil
    with Parsed show ?thesis by simp
  next
    case (Cons d r2)
    have r2: "length r2 < length r1" using Cons by (rule skip_ws_Cons_le)
    have r3: "length (skip_ws r2) \<le> length r2" by (rule skip_ws_le)
    from e [of "skip_ws r2"] r1 r2 r3 show ?thesis using Parsed Cons
      by (auto split: parse.splits)
  qed
qed

lemma members_step:
  assumes v: "\<And>s. (2 * length s < n \<longrightarrow> parse_value n s \<noteq> OutOfFuel)
                  \<and> (\<forall>v r. parse_value n s = Parsed v r \<longrightarrow> length r < length s)"
    and m: "\<And>s. (2 * length s + 1 < n \<longrightarrow> parse_members n s \<noteq> OutOfFuel)
                  \<and> (\<forall>kvs r. parse_members n s = Parsed kvs r \<longrightarrow> length r < length s)"
  shows "(2 * length s + 1 < Suc n \<longrightarrow> parse_members (Suc n) s \<noteq> OutOfFuel)
         \<and> (\<forall>kvs r. parse_members (Suc n) s = Parsed kvs r \<longrightarrow> length r < length s)"
proof (cases s)
  case Nil
  then show ?thesis by simp
next
  case (Cons c r0)
  show ?thesis
  proof (cases "c = dquote")
    case False
    with Cons show ?thesis by simp
  next
    case q: True
    show ?thesis
    proof (cases "string_body r0")
      case None
      with Cons q show ?thesis by simp
    next
      case (Some p)
      obtain its r1 where p: "p = (its, r1)" by (cases p)
      have r1: "length r1 < length r0" using Some p by (auto dest: string_body_shorter)
      show ?thesis
      proof (cases "skip_ws r1")
        case Nil
        with Cons q Some p show ?thesis by simp
      next
        case sk: (Cons d r2)
        have r2: "length r2 < length r1" using sk by (rule skip_ws_Cons_le)
        show ?thesis
        proof (cases "d = CHR '':''")
          case False
          with Cons q Some p sk show ?thesis by simp
        next
          case col: True
          have r2': "length (skip_ws r2) \<le> length r2" by (rule skip_ws_le)
          show ?thesis
          proof (cases "parse_value n (skip_ws r2)")
            case Malformed
            with Cons q Some p sk col show ?thesis by simp
          next
            case OutOfFuel
            with v [of "skip_ws r2"] r1 r2 r2' Cons q Some p sk col show ?thesis by auto
          next
            case (Parsed x r3)
            with v [of "skip_ws r2"] have r3: "length r3 < length (skip_ws r2)" by simp
            show ?thesis
            proof (cases "skip_ws r3")
              case Nil
              with Cons q Some p sk col Parsed show ?thesis by simp
            next
              case s3: (Cons e r4)
              have r4: "length r4 < length r3" using s3 by (rule skip_ws_Cons_le)
              have r4': "length (skip_ws r4) \<le> length r4" by (rule skip_ws_le)
              from m [of "skip_ws r4"] r1 r2 r2' r3 r4 r4'
              show ?thesis using Cons q Some p sk col Parsed s3
                by (auto split: parse.splits)
            qed
          qed
        qed
      qed
    qed
  qed
qed

lemma parse_fuel_all:
  "(\<forall>s. (2 * length s < n \<longrightarrow> parse_value n s \<noteq> OutOfFuel)
        \<and> (\<forall>v r. parse_value n s = Parsed v r \<longrightarrow> length r < length s))
   \<and> (\<forall>s. (2 * length s + 1 < n \<longrightarrow> parse_elements n s \<noteq> OutOfFuel)
        \<and> (\<forall>vs r. parse_elements n s = Parsed vs r \<longrightarrow> length r < length s))
   \<and> (\<forall>s. (2 * length s + 1 < n \<longrightarrow> parse_members n s \<noteq> OutOfFuel)
        \<and> (\<forall>kvs r. parse_members n s = Parsed kvs r \<longrightarrow> length r < length s))"
proof (induction n)
  case 0
  show ?case by simp
next
  case (Suc n)
  then have v: "\<And>s. (2 * length s < n \<longrightarrow> parse_value n s \<noteq> OutOfFuel)
                  \<and> (\<forall>v r. parse_value n s = Parsed v r \<longrightarrow> length r < length s)"
    and e: "\<And>s. (2 * length s + 1 < n \<longrightarrow> parse_elements n s \<noteq> OutOfFuel)
                  \<and> (\<forall>vs r. parse_elements n s = Parsed vs r \<longrightarrow> length r < length s)"
    and m: "\<And>s. (2 * length s + 1 < n \<longrightarrow> parse_members n s \<noteq> OutOfFuel)
                  \<and> (\<forall>kvs r. parse_members n s = Parsed kvs r \<longrightarrow> length r < length s)"
    by blast+
  show ?case
    using value_step [OF e m] elements_step [OF v e] members_step [OF v m] by blast
qed

text \<open>\<open>JSON_parse\<close> never gives up for want of fuel: \<open>None\<close> is a syntax error.\<close>

lemma JSON_parse_fuel: "parse_value (Suc (2 * length s)) (skip_ws s) \<noteq> OutOfFuel"
proof -
  have "2 * length (skip_ws s) < Suc (2 * length s)" using skip_ws_le [of s] by simp
  with parse_fuel_all [of "Suc (2 * length s)"] show ?thesis by blast
qed

section \<open>Rejected calls and the daily counter\<close>

lemma redis_second_call_rejected:
  "fst (checkRateLimit cfg_1_2 ''a'' 1000 redis_after_first) = Reject minute_limit"
  by (simp add: cfg_1_2_def limiter_eval isoDate_1000 redis_after_first_def decimal_digit
      digit_char_def Let_def cong: let_weak_cong)

lemma mem_second_call_rejected:
  "fst (checkRateLimit cfg_1_2 ''a'' 1000 mem_after_first) = Reject minute_limit"
  by (simp add: cfg_1_2_def limiter_eval mem_after_first_def Let_def cong: let_weak_cong)

lemma redis_after_first_daily: "daily_counter redis_after_first ''a'' 1000 = 1"
  by (simp add: limiter_eval isoDate_1000 redis_after_first_def)

lemma mem_after_first_daily: "daily_counter mem_after_first ''a'' 1000 = 1"
  by (simp add: limiter_eval mem_after_first_def)

text \<open>
  C2, as the claim states it, fails in the shared-store variant. With one request per
  minute allowed, the second call of client \<open>a\<close> in minute 0 is rejected with
  \<open>minute_limit\<close>, and the daily counter of the store is 1 before the call and 1 after it:
  the store's branch returns before it increments the day key.
\<close>

theorem minute_rejection_redis_counterexample:
  "checkRateLimit cfg_1_2 ''a'' 0 redis_start = (Admit, redis_after_first)
   \<and> fst (checkRateLimit cfg_1_2 ''a'' 1000 redis_after_first) = Reject minute_limit
   \<and> daily_counter redis_after_first ''a'' 1000 = 1
   \<and> daily_counter (snd (checkRateLimit cfg_1_2 ''a'' 1000 redis_after_first)) ''a'' 1000 = 1"
proof -
  have "daily_counter (snd (checkRateLimit cfg_1_2 ''a'' 1000 redis_after_first)) ''a'' 1000 = 1"
    by (simp add: cfg_1_2_def limiter_eval isoDate_1000 redis_after_first_def decimal_digit
        digit_char_def Let_def cong: let_weak_cong)
  then show ?thesis
    by (simp add: redis_first_call redis_second_call_rejected redis_after_first_daily)
qed

text \<open>
  C2, amended: a call that \<open>checkRateLimit\<close> rejects with \<open>minute_limit\<close> increments the
  client's daily counter in the in-process variant (\<open>redis\<close> not set), and leaves the
  client's daily counter as it was in the shared-store variant.
\<close>

theorem minute_rejection_daily_counter:
  assumes "fst (checkRateLimit cfg c t st) = Reject minute_limit"
  shows "daily_counter (snd (checkRateLimit cfg c t st)) c t =
           (if redis st = None then daily_counter st c t + 1 else daily_counter st c t)"
proof (cases "redis st")
  case None
  then show ?thesis by (simp add: mem_daily_incr)
next
  case (Some db)
  then show ?thesis using assms redis_minute_reject_daily [of st db cfg c t] by simp
qed

theorem minute_rejection_daily_counter_witness:
  "checkRateLimit cfg_1_2 ''a'' 0 mem_start = (Admit, mem_after_first)
   \<and> fst (checkRateLimit cfg_1_2 ''a'' 1000 mem_after_first) = Reject minute_limit
   \<and> daily_counter (snd (checkRateLimit cfg_1_2 ''a'' 1000 mem_after_first)) ''a'' 1000 = 2
   \<and> fst (checkRateLimit cfg_1_2 ''a'' 1000 redis_after_first) = Reject minute_limit
   \<and> daily_counter (snd (checkRateLimit cfg_1_2 ''a'' 1000 redis_after_first)) ''a'' 1000 = 1"
proof -
  have m: "daily_counter (snd (checkRateLimit cfg_1_2 ''a'' 1000 mem_after_first)) ''a'' 1000 = 2"
    using minute_rejection_daily_counter [OF mem_second_call_rejected]
    by (simp add: mem_after_first_daily) (simp add: mem_after_first_def)
  have r: "daily_counter (snd (checkRateLimit cfg_1_2 ''a'' 1000 redis_after_first)) ''a'' 1000 = 1"
    using minute_rejection_daily_counter [OF redis_second_call_rejected]
    by (simp add: redis_after_first_daily) (simp add: redis_after_first_def)
  from m r mem_first_call mem_second_call_rejected redis_second_call_rejected
  show ?thesis by blast
qed

section \<open>The two variants side by side\<close>




section \<open>The daily counter across a change of date\<close>

lemma isoDate_180000: "isoDate 180000 = ''1970-01-01''"
  by (simp add: date_eval cong: let_weak_cong)

text \<open>
  C3 at a failing input, in-process variant, daily ceiling 3: client \<open>a\<close> calls at
  00:00, 00:01 and 00:02 of 1970-01-01 and once more at 00:00 of 1970-01-02. The fourth
  call is the first of its date, and it is rejected with \<open>daily_limit\<close>: the entry still
  holds the day \<open>1970-01-01\<close> and a day count of 4, since nothing compares the stored day
  with the current date. The shared-store variant admits the same call. (Four calls on
  one date in four different minutes are rejected at the fourth in both variants.)
\<close>

theorem daily_count_not_reset_in_memory:
  "decisions cfg_60_3 mem_start
     [(''a'', 0), (''a'', 60000), (''a'', 120000), (''a'', 86400000)]
     = [Admit, Admit, Admit, Reject daily_limit]
   \<and> isoDate 120000 = ''1970-01-01'' \<and> isoDate 86400000 = ''1970-01-02''
   \<and> ipMap (final_state cfg_60_3 mem_start
        [(''a'', 0), (''a'', 60000), (''a'', 120000), (''a'', 86400000)]) ''a''
     = Some \<lparr>minute = 1440, count = 1, day = ''1970-01-01'', dayCount = 4\<rparr>
   \<and> decisions cfg_60_3 redis_start
     [(''a'', 0), (''a'', 60000), (''a'', 120000), (''a'', 86400000)]
     = [Admit, Admit, Admit, Admit]
   \<and> decisions cfg_60_3 mem_start
     [(''a'', 0), (''a'', 60000), (''a'', 120000), (''a'', 180000)]
     = [Admit, Admit, Admit, Reject daily_limit]
   \<and> decisions cfg_60_3 redis_start
     [(''a'', 0), (''a'', 60000), (''a'', 120000), (''a'', 180000)]
     = [Admit, Admit, Admit, Reject daily_limit]"
proof -
  note ev = cfg_60_3_def limiter_eval isoDate_0 isoDate_60000 isoDate_120000 isoDate_180000
    isoDate_next_day decimal.simps digit_char_def Let_def
  have 1: "decisions cfg_60_3 mem_start
     [(''a'', 0), (''a'', 60000), (''a'', 120000), (''a'', 86400000)]
     = [Admit, Admit, Admit, Reject daily_limit]"
    by (simp add: ev cong: let_weak_cong)
  have 2: "ipMap (final_state cfg_60_3 mem_start
        [(''a'', 0), (''a'', 60000), (''a'', 120000), (''a'', 86400000)]) ''a''
     = Some \<lparr>minute = 1440, count = 1, day = ''1970-01-01'', dayCount = 4\<rparr>"
    by (simp add: ev cong: let_weak_cong)
  have 3: "decisions cfg_60_3 redis_start
     [(''a'', 0), (''a'', 60000), (''a'', 120000), (''a'', 86400000)]
     = [Admit, Admit, Admit, Admit]"
    by (simp add: ev cong: let_weak_cong)
  have 4: "decisions cfg_60_3 mem_start
     [(''a'', 0), (''a'', 60000), (''a'', 120000), (''a'', 180000)]
     = [Admit, Admit, Admit, Reject daily_limit]"
    by (simp add: ev cong: let_weak_cong)
  have 5: "decisions cfg_60_3 redis_start
     [(''a'', 0), (''a'', 60000), (''a'', 120000), (''a'', 180000)]
     = [Admit, Admit, Admit, Reject daily_limit]"
    by (simp add: ev cong: let_weak_cong)
  from 1 2 3 4 5 show ?thesis by (simp add: isoDate_120000 isoDate_next_day)
qed

section \<open>Counts within a minute window and after it\<close>




lemma array_index_zero [simp]: "array_index ''0'' = Some 0"
  by (simp add: array_index_def is_digit_def digits_value_def digit_value_def decimal_digit
      digit_char_def)

lemma path_value_nullish: "path_value Null text_path = Undefined"
  "path_value Undefined text_path = Undefined"
  by (simp_all add: path_value_def text_path_def)

lemma path_value_wrap_text:
  "path_value (Obj ((''candidates'', wrap_text t) # rest)) text_path = t"
  by (simp add: path_value_def text_path_def wrap_text_def opt_prop_def)

lemma no_candidates_path:
  assumes "x \<noteq> Null" "x \<noteq> Undefined" "own_property x ''candidates'' = Undefined"
  shows "path_value x text_path = Undefined"
  using assms by (simp add: path_value_def text_path_def opt_prop_def)

section \<open>The normalizer\<close>

text \<open>
  C5: when the upstream value holds a string at \<^verbatim>\<open>candidates[0].content.parts[0].text\<close> and
  that string parses as the JSON value \<open>v\<close>, the normalizer returns
  \<^verbatim>\<open>{ recommendations: v }\<close>, whatever the shape of \<open>v\<close>. The instance proved after it is the spec's example:
  the text \<^verbatim>\<open>[{"name":"X"}]\<close> gives \<^verbatim>\<open>{recommendations:[{"name":"X"}]}\<close>.
\<close>

theorem normalize_wraps_parsed_text:
  assumes "path_value x text_path = Str t" and "JSON_parse t = Some v"
  shows "normalize_upstream x = Inr (Obj [(''recommendations'', v)])"
proof -
  have n: "x \<noteq> Undefined" "x \<noteq> Null" using assms(1) path_value_nullish by auto
  have "t \<noteq> []" using assms(2) by (rule JSON_parse_nonempty)
  then show ?thesis by (simp add: normalize_upstream_cases [OF n] assms)
qed

theorem normalize_wraps_parsed_text_witness:
  "normalize_upstream example_upstream
     = Inr (Obj [(''recommendations'', Arr [Obj [(''name'', Str ''X'')]])])"
proof -
  have p: "path_value example_upstream text_path = Str example_text"
    unfolding example_upstream_def by (rule path_value_wrap_text)
  from normalize_wraps_parsed_text [OF p JSON_parse_example] show ?thesis .
qed

text \<open>
  C6, as the claim states it, fails twice. The JSON text \<^verbatim>\<open>null\<close> is well formed, and on
  the value \<^verbatim>\<open>null\<close> the normalizer throws: reading \<^verbatim>\<open>json.candidates\<close> raises a TypeError.
  And a text field holding the empty string exists and does not parse as JSON, yet the
  normalizer returns the whole upstream object, here with its \<^verbatim>\<open>modelVersion\<close>, not
  \<^verbatim>\<open>{ candidates: ... }\<close>: the empty string counts as false in the handler's condition.
\<close>

theorem normalize_fallback_counterexample:
  "JSON_parse ''null'' = Some Null \<and> normalize_upstream Null = Inl TypeError
   \<and> path_value example_empty_text text_path = Str [] \<and> JSON_parse [] = None
   \<and> normalize_upstream example_empty_text = Inr example_empty_text
   \<and> example_empty_text \<noteq> Obj [(''candidates'', opt_prop example_empty_text ''candidates'')]"
proof -
  have 1: "JSON_parse ''null'' = Some Null" by (simp add: json_eval)
  have 2: "path_value example_empty_text text_path = Str []"
    unfolding example_empty_text_def by (rule path_value_wrap_text)
  have n: "example_empty_text \<noteq> Undefined" "example_empty_text \<noteq> Null"
    by (simp_all add: example_empty_text_def)
  have 3: "normalize_upstream example_empty_text = Inr example_empty_text"
    by (simp add: normalize_upstream_cases [OF n] 2)
  have 4: "example_empty_text \<noteq> Obj [(''candidates'', opt_prop example_empty_text ''candidates'')]"
    by (simp add: example_empty_text_def)
  from 1 2 3 4 show ?thesis by (simp add: normalize_upstream_nullish JSON_parse_empty)
qed

text \<open>
  C6, amended: for every JSON value other than \<^verbatim>\<open>null\<close> the normalizer returns a value and
  does not throw; and when the value at \<^verbatim>\<open>candidates[0].content.parts[0].text\<close> counts as
  true (for a string: is not empty) and does not parse as JSON, it returns
  \<^verbatim>\<open>{ candidates: upstreamJson.candidates }\<close> with the candidate list as it was.
\<close>

theorem normalize_never_throws_fallback:
  assumes "x \<noteq> Null" and "x \<noteq> Undefined"
  shows "(\<exists>v. normalize_upstream x = Inr v)
     \<and> (truthy (path_value x text_path)
          \<longrightarrow> JSON_parse (ToString (path_value x text_path)) = None
          \<longrightarrow> normalize_upstream x = Inr (Obj [(''candidates'', opt_prop x ''candidates'')]))"
  by (simp add: normalize_upstream_cases [OF assms(2,1)] split: option.splits)

theorem normalize_never_throws_fallback_witness:
  "normalize_upstream example_not_json
     = Inr (Obj [(''candidates'', wrap_text (Str ''not json''))])"
proof -
  have n: "example_not_json \<noteq> Null" "example_not_json \<noteq> Undefined"
    by (simp_all add: example_not_json_def)
  have p: "path_value example_not_json text_path = Str ''not json''"
    unfolding example_not_json_def by (rule path_value_wrap_text)
  have t: "truthy (path_value example_not_json text_path)" by (simp add: p)
  have f: "JSON_parse (ToString (path_value example_not_json text_path)) = None"
    by (simp add: p JSON_parse_not_json)
  have c: "opt_prop example_not_json ''candidates'' = wrap_text (Str ''not json'')"
    by (simp add: example_not_json_def opt_prop_def)
  from normalize_never_throws_fallback [OF n] t f
  have "normalize_upstream example_not_json
          = Inr (Obj [(''candidates'', opt_prop example_not_json ''candidates'')])"
    by blast
  then show ?thesis by (simp only: c)
qed

text \<open>
  C7, as the claim states it, fails: a value whose \<^verbatim>\<open>candidates\<close> is not an array but an
  object with the key \<^verbatim>\<open>"0"\<close> has no candidates array, and the handler's
  \<^verbatim>\<open>json.candidates?.[0]\<close> reads that key all the same; with the text \<^verbatim>\<open>"1"\<close> under it the
  normalizer returns \<^verbatim>\<open>{ recommendations: 1 }\<close>, not its input.
\<close>

theorem normalize_pass_through_counterexample:
  "\<not> has_candidates_array example_array_like
   \<and> normalize_upstream example_array_like = Inr (Obj [(''recommendations'', Num 1 0)])
   \<and> normalize_upstream example_array_like \<noteq> Inr example_array_like"
proof -
  have n: "example_array_like \<noteq> Undefined" "example_array_like \<noteq> Null"
    by (simp_all add: example_array_like_def)
  have p: "path_value example_array_like text_path = Str ''1''"
    by (simp add: example_array_like_def path_value_def text_path_def opt_prop_def)
  have 1: "normalize_upstream example_array_like = Inr (Obj [(''recommendations'', Num 1 0)])"
    by (simp add: normalize_upstream_cases [OF n] p JSON_parse_one)
  have 2: "\<not> has_candidates_array example_array_like"
    by (simp add: has_candidates_array_def example_array_like_def)
  from 1 2 show ?thesis by (simp add: example_array_like_def)
qed

text \<open>
  C7, amended: for every JSON value other than \<^verbatim>\<open>null\<close> that has no \<^verbatim>\<open>candidates\<close> property,
  or for which \<^verbatim>\<open>candidates[0].content.parts[0].text\<close>, read by property lookup (an object
  with the key \<^verbatim>\<open>"0"\<close> is indexed like an array), is missing or counts as false, the
  normalizer returns the input unchanged. The instance proved after it is the spec's \<^verbatim>\<open>{foo: "bar"}\<close>.
\<close>

theorem normalize_pass_through:
  assumes "x \<noteq> Null" and "x \<noteq> Undefined"
    and "own_property x ''candidates'' = Undefined \<or> \<not> truthy (path_value x text_path)"
  shows "normalize_upstream x = Inr x"
proof -
  have "\<not> truthy (path_value x text_path)"
    using assms(3) no_candidates_path [OF assms(1,2)] by auto
  then show ?thesis by (simp add: normalize_upstream_cases [OF assms(2,1)])
qed

theorem normalize_pass_through_witness:
  "normalize_upstream example_foo_bar = Inr example_foo_bar"
proof -
  have n: "example_foo_bar \<noteq> Null" "example_foo_bar \<noteq> Undefined"
    by (simp_all add: example_foo_bar_def)
  have "own_property example_foo_bar ''candidates'' = Undefined"
    by (simp add: example_foo_bar_def)
  then have "own_property example_foo_bar ''candidates'' = Undefined
               \<or> \<not> truthy (path_value example_foo_bar text_path)" ..
  from normalize_pass_through [OF n this] show ?thesis .
qed

section \<open>The handlers\<close>

lemma getClientIp_example: "getClientIp example_post = ''a''" "getClientIp example_get = ''a''"
  by (simp_all add: getClientIp_def example_post_def example_get_def env_set_def trim_def
      js_space_def)

lemma reason_name_cases: "reason_name r = ''minute_limit'' \<or> reason_name r = ''daily_limit''"
  by (cases r) (simp_all add: reason_name_def)

lemma sixty_first_refused: "fst (rate_limit_sl ''a'' 0 counters_after_sixty) = False"
  using sl_call_same_window(1) [where m = counters_after_sixty and c = "''a''" and t = 0,
      OF counters_after_sixty_a]
  by simp

text \<open>
  C8: a request to the serverless function whose method is not POST is answered with
  status 405, the header \<^verbatim>\<open>Allow: POST\<close> and the text \<^verbatim>\<open>Method Not Allowed\<close>; no upstream
  call is made and \<^verbatim>\<open>ipCounters\<close>, the state of the limiter, is what it was.
\<close>

theorem handler_method_not_allowed:
  assumes "req_method req \<noteq> ''POST''"
  shows "handler env upstream now req ipCounters
           = (\<lparr>status = 405, headers = [(''Allow'', ''POST'')],
               content = TextBody ''Method Not Allowed''\<rparr>, ipCounters, [])"
  using assms by (simp add: handler_def)

theorem handler_method_not_allowed_witness:
  "handler example_env upstream_unreachable 0 example_get Map.empty
     = (\<lparr>status = 405, headers = [(''Allow'', ''POST'')],
         content = TextBody ''Method Not Allowed''\<rparr>, Map.empty, [])"
proof -
  have "req_method example_get \<noteq> ''POST''" by (simp add: example_get_def example_post_def)
  from handler_method_not_allowed [OF this] show ?thesis .
qed

text \<open>
  C9, as the claim states it, fails for the serverless function: the 61st request of a
  client within the window is answered with status 429 and the body
  \<^verbatim>\<open>{ error: 'Rate limit exceeded. Try again later.' }\<close>, which has no \<^verbatim>\<open>reason\<close>.
\<close>

theorem serverless_rejection_counterexample:
  "fst (handler example_env upstream_unreachable 0 example_post counters_after_sixty)
     = json_response 429 (Obj [(''error'', Str ''Rate limit exceeded. Try again later.'')])
   \<and> own_property (Obj [(''error'', Str ''Rate limit exceeded. Try again later.'')]) ''reason''
     = Undefined"
proof -
  have k: "env_set (GEMINI_API_KEY example_env)" by (simp add: example_env_def env_set_def)
  have m: "req_method example_post = ''POST''" by (simp add: example_post_def)
  have "fst (handler example_env upstream_unreachable 0 example_post counters_after_sixty)
          = json_response 429 (Obj [(''error'', Str ''Rate limit exceeded. Try again later.'')])"
    using sixty_first_refused
    by (simp add: handler_def k m getClientIp_example case_prod_beta)
  then show ?thesis by simp
qed

text \<open>
  C9, amended: when \<open>checkRateLimit\<close> rejects a request, the Express handler answers with
  status 429 and the body \<^verbatim>\<open>{ error: 'Rate limit exceeded', reason }\<close>, the reason being
  \<^verbatim>\<open>minute_limit\<close> or \<^verbatim>\<open>daily_limit\<close>; when the serverless function's limiter refuses a
  request, it answers with status 429 and a body that holds an error message only.
  Neither makes an upstream call.
\<close>

theorem rate_limit_rejection_response:
  "(env_set (GEMINI_API_KEY env)
      \<longrightarrow> fst (checkRateLimit (limits env) (getClientIp req) now st) = Reject r
      \<longrightarrow> fst (proxy_post env upstream now req st)
            = json_response 429
                (Obj [(''error'', Str ''Rate limit exceeded''), (''reason'', Str (reason_name r))])
          \<and> (reason_name r = ''minute_limit'' \<or> reason_name r = ''daily_limit'')
          \<and> snd (snd (proxy_post env upstream now req st)) = [])
   \<and> (req_method req = ''POST'' \<longrightarrow> env_set (GEMINI_API_KEY env)
      \<longrightarrow> fst (rate_limit_sl (getClientIp req) now ipCounters) = False
      \<longrightarrow> fst (handler env upstream now req ipCounters)
            = json_response 429 (Obj [(''error'', Str ''Rate limit exceeded. Try again later.'')])
          \<and> snd (snd (handler env upstream now req ipCounters)) = [])"
  using reason_name_cases [of r]
  by (auto simp add: proxy_post_def handler_def case_prod_beta)

theorem rate_limit_rejection_response_witness:
  "fst (proxy_post example_env upstream_unreachable 1000 example_post mem_after_first)
     = json_response 429
         (Obj [(''error'', Str ''Rate limit exceeded''), (''reason'', Str ''minute_limit'')])
   \<and> snd (snd (proxy_post example_env upstream_unreachable 1000 example_post mem_after_first)) = []
   \<and> fst (handler example_env upstream_unreachable 0 example_post counters_after_sixty)
     = json_response 429 (Obj [(''error'', Str ''Rate limit exceeded. Try again later.'')])
   \<and> snd (snd (handler example_env upstream_unreachable 0 example_post counters_after_sixty)) = []"
proof -
  have k: "env_set (GEMINI_API_KEY example_env)" by (simp add: example_env_def env_set_def)
  have m: "req_method example_post = ''POST''" by (simp add: example_post_def)
  have l: "limits example_env = cfg_1_2" by (simp add: example_env_def)
  have r: "fst (checkRateLimit (limits example_env) (getClientIp example_post) 1000 mem_after_first)
             = Reject minute_limit"
    by (simp add: l getClientIp_example mem_second_call_rejected)
  have s: "fst (rate_limit_sl (getClientIp example_post) 0 counters_after_sixty) = False"
    by (simp add: getClientIp_example sixty_first_refused)
  from rate_limit_rejection_response
    [where env = example_env and req = example_post and now = 1000 and st = mem_after_first
      and r = minute_limit and upstream = upstream_unreachable] k r
  have e: "fst (proxy_post example_env upstream_unreachable 1000 example_post mem_after_first)
     = json_response 429
         (Obj [(''error'', Str ''Rate limit exceeded''),
               (''reason'', Str (reason_name minute_limit))])
   \<and> snd (snd (proxy_post example_env upstream_unreachable 1000 example_post mem_after_first)) = []"
    by blast
  from rate_limit_rejection_response
    [where env = example_env and req = example_post and now = 0
      and ipCounters = counters_after_sixty and upstream = upstream_unreachable] k m s
  have h: "fst (handler example_env upstream_unreachable 0 example_post counters_after_sixty)
     = json_response 429 (Obj [(''error'', Str ''Rate limit exceeded. Try again later.'')])
   \<and> snd (snd (handler example_env upstream_unreachable 0 example_post counters_after_sixty)) = []"
    by blast
  from e h show ?thesis by (simp add: reason_name_def)
qed

text \<open>
  C10: in the Express server, with \<^verbatim>\<open>GEMINI_API_KEY\<close> unset or empty and demo mode off, the
  handler answers with the configuration error (status 500) and leaves the limiter's
  state, in-process table and store alike, as it was, with no upstream call; the same
  holds of the state for any POST to \<^verbatim>\<open>/proxy\<close> through the authentication middleware,
  whatever the middleware and the demo mode answer. The serverless function answers a
  POST with its configuration error (status 403) and leaves \<^verbatim>\<open>ipCounters\<close> as it was.
\<close>

theorem key_check_before_limiter:
  assumes "\<not> env_set (GEMINI_API_KEY env)"
  shows "(\<not> DEMO_PROXY env \<longrightarrow>
            proxy_post env upstream now req st
              = (json_response 500
                   (Obj [(''error'', Str ''GEMINI_API_KEY not configured on server'')]), st, []))
     \<and> snd (proxy_post env upstream now req st) = (st, [])
     \<and> snd (app_post_proxy env upstream now req st) = (st, [])
     \<and> (req_method req = ''POST'' \<longrightarrow>
            handler env upstream now req ipCounters
              = (json_response 403
                   (Obj [(''error'', Str ''GEMINI_API_KEY not configured on server. Please set the environment variable.'')]),
                 ipCounters, []))"
  using assms
  by (simp add: proxy_post_def app_post_proxy_def handler_def split: option.splits)

theorem key_check_before_limiter_witness:
  "proxy_post example_env_no_key upstream_unreachable 0 example_post mem_after_first
     = (json_response 500
          (Obj [(''error'', Str ''GEMINI_API_KEY not configured on server'')]),
        mem_after_first, [])
   \<and> snd (app_post_proxy example_env_no_key upstream_unreachable 0 example_post redis_after_first)
     = (redis_after_first, [])
   \<and> handler example_env_no_key upstream_unreachable 0 example_post counters_after_sixty
     = (json_response 403
          (Obj [(''error'', Str ''GEMINI_API_KEY not configured on server. Please set the environment variable.'')]),
        counters_after_sixty, [])"
proof -
  have k: "\<not> env_set (GEMINI_API_KEY example_env_no_key)"
    by (simp add: example_env_no_key_def example_env_def env_set_def)
  have d: "\<not> DEMO_PROXY example_env_no_key"
    by (simp add: example_env_no_key_def example_env_def)
  have m: "req_method example_post = ''POST''" by (simp add: example_post_def)
  from key_check_before_limiter [OF k, where upstream = upstream_unreachable and now = 0
      and req = example_post and st = mem_after_first and ipCounters = counters_after_sixty]
    key_check_before_limiter [OF k, where upstream = upstream_unreachable and now = 0
      and req = example_post and st = redis_after_first and ipCounters = counters_after_sixty]
    d m
  show ?thesis by blast
qed

end
